theory Spec2Isabelle
  imports Main "HOL-Library.Word"
begin

unbundle bit_operations_syntax

section \<open>Bytes, slices and Python's conversions\<close>

type_synonym byte = "8 word"
type_synonym bytes = "byte list"

text \<open>The exceptions the modelled code can raise.\<close>

datatype error = ValueError | OverflowError | IndexError

text \<open>
  Python's \<^verbatim>\<open>xs[a:b]\<close> for non-negative bounds: out-of-range bounds are clipped and the
  slice is empty when \<open>b \<le> a\<close>. It never raises.
\<close>

definition pyslice :: "'a list \<Rightarrow> nat \<Rightarrow> nat \<Rightarrow> 'a list" where
  "pyslice xs a b = take (b - a) (drop a xs)"

text \<open>Python's \<^verbatim>\<open>xs[i]\<close> for a non-negative index: IndexError out of range.\<close>

definition pyindex :: "'a list \<Rightarrow> nat \<Rightarrow> error + 'a" where
  "pyindex xs i = (if i < length xs then Inr (xs ! i) else Inl IndexError)"

text \<open>
  Python's \<^verbatim>\<open>buf[a:b] = data\<close> on a bytearray: the slice is replaced by \<open>data\<close>, whatever
  its length, so the buffer grows or shrinks when the lengths differ.
\<close>

definition pyslice_assign :: "'a list \<Rightarrow> nat \<Rightarrow> nat \<Rightarrow> 'a list \<Rightarrow> 'a list" where
  "pyslice_assign buf a b data = take a buf @ data @ drop (max a b) buf"

text \<open>\<^verbatim>\<open>bytes([n])\<close>: ValueError unless \<open>n\<close> is in \<open>range(256)\<close>.\<close>

definition byte_of_int :: "int \<Rightarrow> error + byte" where
  "byte_of_int n = (if 0 \<le> n \<and> n \<le> 255 then Inr (word_of_int n) else Inl ValueError)"

fun bytes_of_ints :: "int list \<Rightarrow> error + bytes" where
  "bytes_of_ints [] = Inr []"
| "bytes_of_ints (n # ns) =
     (case byte_of_int n of
        Inl e \<Rightarrow> Inl e
      | Inr b \<Rightarrow> (case bytes_of_ints ns of Inl e \<Rightarrow> Inl e | Inr bs \<Rightarrow> Inr (b # bs)))"

text \<open>\<^verbatim>\<open>n.to_bytes(2, "little")\<close> for a non-negative \<open>n\<close>: OverflowError from 65536 on.\<close>

definition to_bytes2 :: "nat \<Rightarrow> error + bytes" where
  "to_bytes2 n =
     (if n < 65536 then Inr [word_of_nat (n mod 256), word_of_nat (n div 256)]
      else Inl OverflowError)"

text \<open>\<^verbatim>\<open>int.from_bytes(bs, "little")\<close>, on a byte string of any length.\<close>

fun from_bytes_le :: "bytes \<Rightarrow> nat" where
  "from_bytes_le [] = 0"
| "from_bytes_le (b # bs) = unat b + 256 * from_bytes_le bs"

section \<open>protocol/framing.py\<close>

text \<open>
  \<^verbatim>\<open>utils/crc.py\<close> is not among the sources. The checksum function is a parameter
  \<open>crc16\<close> of every function that calls it, typed by its contract
  \<^verbatim>\<open>checksum(bytes) -> u16\<close>.
\<close>

type_synonym crc = "bytes \<Rightarrow> 16 word"

definition PREAMBLE :: bytes where
  "PREAMBLE = [0xAA, 0x55]"

definition HID_REPORT_SIZE :: nat where
  "HID_REPORT_SIZE = 64"

record Frame =
  command :: byte
  payload :: bytes

text \<open>
  \<^verbatim>\<open>build_frame\<close>. \<^verbatim>\<open>b"\x00" * k\<close> is empty for a negative \<open>k\<close>, which is what the
  truncating subtraction of \<open>nat\<close> gives to \<open>replicate\<close>.
\<close>

definition build_frame :: "crc \<Rightarrow> byte \<Rightarrow> bytes \<Rightarrow> error + bytes" where
  "build_frame crc16 cmd pl =
     (let body = cmd # pl in
      case to_bytes2 (length body) of
        Inl e \<Rightarrow> Inl e
      | Inr size_bytes \<Rightarrow>
          (case to_bytes2 (unat (crc16 body)) of
             Inl e \<Rightarrow> Inl e
           | Inr checksum \<Rightarrow>
               (let frame = PREAMBLE @ size_bytes @ body @ checksum;
                    hid_size = length frame
                in case byte_of_int (int hid_size) of
                     Inl e \<Rightarrow> Inl e
                   | Inr h \<Rightarrow>
                       Inr (h # frame @ replicate (HID_REPORT_SIZE - 1 - length frame) 0))))"

text \<open>
  The \<^verbatim>\<open>while offset < len(full_message)\<close> loop of \<^verbatim>\<open>build_chunked_frames\<close>. A chunk
  has at most 63 bytes, so \<^verbatim>\<open>bytes([len(chunk)])\<close> cannot raise there.
\<close>

function chunk_loop :: "bytes \<Rightarrow> nat \<Rightarrow> bytes list \<Rightarrow> bytes list" where
  "chunk_loop full_message offset frames =
     (if offset < length full_message then
        (let chunk = pyslice full_message offset (offset + 63);
             report = word_of_nat (length chunk) # chunk @ replicate (63 - length chunk) 0
         in chunk_loop full_message (offset + 63) (frames @ [report]))
      else frames)"
  by pat_completeness auto
termination
  by (relation "measure (\<lambda>(m, off, fr). length m - off)") auto

declare chunk_loop.simps [simp del]

definition build_chunked_frames :: "crc \<Rightarrow> byte \<Rightarrow> bytes \<Rightarrow> error + bytes list" where
  "build_chunked_frames crc16 cmd pl =
     (let body = cmd # pl in
      case to_bytes2 (length body) of
        Inl e \<Rightarrow> Inl e
      | Inr size_bytes \<Rightarrow>
          (case to_bytes2 (unat (crc16 body)) of
             Inl e \<Rightarrow> Inl e
           | Inr checksum \<Rightarrow>
               (let full_message = PREAMBLE @ size_bytes @ body @ checksum in
                if length full_message \<le> HID_REPORT_SIZE - 1 then
                  (case build_frame crc16 cmd pl of
                     Inl e \<Rightarrow> Inl e
                   | Inr r \<Rightarrow> Inr [r])
                else Inr (chunk_loop full_message 0 []))))"

definition parse_frame :: "crc \<Rightarrow> bytes \<Rightarrow> error + Frame option" where
  "parse_frame crc16 data =
     (if length data < 8 then Inr None
      else case pyindex data 0 of
        Inl e \<Rightarrow> Inl e
      | Inr hid_size \<Rightarrow>
          if unat hid_size < 7 then Inr None
          else if pyslice data 1 3 \<noteq> PREAMBLE then Inr None
          else
            (let body_size = from_bytes_le (pyslice data 3 5) in
             if body_size < 1 then Inr None
             else case pyindex data 5 of
               Inl e \<Rightarrow> Inl e
             | Inr c \<Rightarrow>
                 (let pl = pyslice data 6 (5 + body_size);
                      body = pyslice data 5 (5 + body_size);
                      expected_checksum =
                        from_bytes_le (pyslice data (5 + body_size) (5 + body_size + 2));
                      actual_checksum = unat (crc16 body)
                  in if actual_checksum \<noteq> expected_checksum then Inr None
                     else Inr (Some \<lparr>command = c, payload = pl\<rparr>))))"

text \<open>The reassembly loop of \<^verbatim>\<open>parse_chunked_frames\<close>; \<^verbatim>\<open>report[0]\<close> is read only
  from a non-empty report.\<close>

fun assemble :: "bytes \<Rightarrow> bytes list \<Rightarrow> bytes" where
  "assemble assembled [] = assembled"
| "assemble assembled (report # reports) =
     (if length report < 1 then assemble assembled reports
      else (let chunk_size = unat (hd report)
            in assemble (assembled @ pyslice report 1 (1 + chunk_size)) reports))"

definition parse_chunked_frames :: "crc \<Rightarrow> bytes list \<Rightarrow> error + Frame option" where
  "parse_chunked_frames crc16 reports =
     (let assembled = assemble [] reports in
      if length assembled < 7 then Inr None
      else if pyslice assembled 0 2 \<noteq> PREAMBLE then Inr None
      else
        (let body_size = from_bytes_le (pyslice assembled 2 4) in
         if body_size < 1 then Inr None
         else case pyindex assembled 4 of
           Inl e \<Rightarrow> Inl e
         | Inr c \<Rightarrow>
             (let pl = pyslice assembled 5 (4 + body_size);
                  body = pyslice assembled 4 (4 + body_size);
                  expected_checksum =
                    from_bytes_le (pyslice assembled (4 + body_size) (4 + body_size + 2));
                  actual_checksum = unat (crc16 body)
              in if actual_checksum \<noteq> expected_checksum then Inr None
                 else Inr (Some \<lparr>command = c, payload = pl\<rparr>))))"

section \<open>protocol/commands.py\<close>

datatype Command =
    IDENTIFY | MENU | PRESET | PEDAL_ASSIGN_ALT | CAB_MODELS | FOOT_SWITCH
  | FX | DS_OD | AMP | CAB | NS_GATE | EQ | MOD | DELAY | REVERB
  | SYSTEM | VOLUME | PEDAL_ASSIGNMENT | PATCH_ALTERNATE | PATCH_SETTING
  | ACTIVE_PATCH | STORE_PATCH | ACTIVE_PATCH_SETTING
  | CABINET_UPLOAD | AMP_UPLOAD | AMP_MODELS

text \<open>The \<^verbatim>\<open>.value\<close> of a member of the \<^verbatim>\<open>IntEnum\<close>.\<close>

fun Command_value :: "Command \<Rightarrow> byte" where
  "Command_value IDENTIFY = 0x10"
| "Command_value MENU = 0x82"
| "Command_value PRESET = 0x83"
| "Command_value PEDAL_ASSIGN_ALT = 0x84"
| "Command_value CAB_MODELS = 0x85"
| "Command_value FOOT_SWITCH = 0x89"
| "Command_value FX = 0x90"
| "Command_value DS_OD = 0x91"
| "Command_value AMP = 0x93"
| "Command_value CAB = 0x94"
| "Command_value NS_GATE = 0x95"
| "Command_value EQ = 0x96"
| "Command_value MOD = 0x97"
| "Command_value DELAY = 0x98"
| "Command_value REVERB = 0x99"
| "Command_value SYSTEM = 0xA1"
| "Command_value VOLUME = 0xA2"
| "Command_value PEDAL_ASSIGNMENT = 0xA3"
| "Command_value PATCH_ALTERNATE = 0xA4"
| "Command_value PATCH_SETTING = 0xA5"
| "Command_value ACTIVE_PATCH = 0xA6"
| "Command_value STORE_PATCH = 0xA8"
| "Command_value ACTIVE_PATCH_SETTING = 0xA9"
| "Command_value CABINET_UPLOAD = 0xE1"
| "Command_value AMP_UPLOAD = 0xE2"
| "Command_value AMP_MODELS = 0xE3"

definition Command_members :: "Command list" where
  "Command_members =
     [IDENTIFY, MENU, PRESET, PEDAL_ASSIGN_ALT, CAB_MODELS, FOOT_SWITCH,
      FX, DS_OD, AMP, CAB, NS_GATE, EQ, MOD, DELAY, REVERB,
      SYSTEM, VOLUME, PEDAL_ASSIGNMENT, PATCH_ALTERNATE, PATCH_SETTING,
      ACTIVE_PATCH, STORE_PATCH, ACTIVE_PATCH_SETTING,
      CABINET_UPLOAD, AMP_UPLOAD, AMP_MODELS]"

text \<open>
  The enum call \<^verbatim>\<open>Command(x)\<close>: the member whose value is \<open>x\<close>, and ValueError when no
  member has that value.
\<close>

definition Command_of :: "byte \<Rightarrow> error + Command" where
  "Command_of x =
     (case find (\<lambda>c. Command_value c = x) Command_members of
        None \<Rightarrow> Inl ValueError
      | Some c \<Rightarrow> Inr c)"

definition MODULE_COMMAND_MAP :: "string \<rightharpoonup> Command" where
  "MODULE_COMMAND_MAP =
     map_of [(''fx'', FX), (''od'', DS_OD), (''amp'', AMP), (''cab'', CAB), (''ns'', NS_GATE),
             (''eq'', EQ), (''mod'', MOD), (''delay'', DELAY), (''reverb'', REVERB)]"

definition build_command :: "crc \<Rightarrow> Command \<Rightarrow> bytes \<Rightarrow> error + bytes" where
  "build_command crc16 c pl = build_frame crc16 (Command_value c) pl"

definition build_select_preset :: "crc \<Rightarrow> int \<Rightarrow> error + bytes" where
  "build_select_preset crc16 slot =
     (if \<not> (0 \<le> slot \<and> slot \<le> 199) then Inl ValueError
      else case bytes_of_ints [slot] of
        Inl e \<Rightarrow> Inl e
      | Inr pl \<Rightarrow> build_command crc16 ACTIVE_PATCH pl)"

definition build_read_preset :: "crc \<Rightarrow> int \<Rightarrow> error + bytes" where
  "build_read_preset crc16 slot =
     (if \<not> (0 \<le> slot \<and> slot \<le> 199) then Inl ValueError
      else case bytes_of_ints [slot] of
        Inl e \<Rightarrow> Inl e
      | Inr pl \<Rightarrow> build_command crc16 PRESET pl)"

definition build_store_preset :: "crc \<Rightarrow> int \<Rightarrow> bytes \<Rightarrow> error + bytes list" where
  "build_store_preset crc16 slot preset_data =
     (if \<not> (0 \<le> slot \<and> slot \<le> 199) then Inl ValueError
      else if length preset_data \<noteq> 0x200 then Inl ValueError
      else case bytes_of_ints [slot] of
        Inl e \<Rightarrow> Inl e
      | Inr s \<Rightarrow> build_chunked_frames crc16 (Command_value STORE_PATCH) (s @ preset_data))"

definition build_effect_param :: "crc \<Rightarrow> string \<Rightarrow> int \<Rightarrow> int \<Rightarrow> error + bytes" where
  "build_effect_param crc16 module param_index val =
     (case MODULE_COMMAND_MAP module of
        None \<Rightarrow> Inl ValueError
      | Some c \<Rightarrow>
          if \<not> (0 \<le> val \<and> val \<le> 255) then Inl ValueError
          else case bytes_of_ints [param_index, val] of
            Inl e \<Rightarrow> Inl e
          | Inr pl \<Rightarrow> build_command crc16 c pl)"

definition build_toggle_effect :: "crc \<Rightarrow> string \<Rightarrow> bool \<Rightarrow> error + bytes" where
  "build_toggle_effect crc16 module en =
     build_effect_param crc16 module 1 (if en then 1 else 0)"

definition build_set_volume :: "crc \<Rightarrow> int \<Rightarrow> error + bytes" where
  "build_set_volume crc16 vol =
     (if \<not> (0 \<le> vol \<and> vol \<le> 100) then Inl ValueError
      else case bytes_of_ints [vol] of
        Inl e \<Rightarrow> Inl e
      | Inr pl \<Rightarrow> build_command crc16 VOLUME pl)"

section \<open>protocol/parser.py\<close>

text \<open>A Python \<^verbatim>\<open>str\<close> is its list of code points.\<close>

type_synonym pystr = "nat list"

definition pystr_of :: "string \<Rightarrow> pystr" where
  "pystr_of s = map of_char s"

text \<open>\<^verbatim>\<open>bs.decode("ascii", errors="replace")\<close>: a byte from 128 on becomes U+FFFD.\<close>

definition decode_ascii :: "bytes \<Rightarrow> pystr" where
  "decode_ascii bs = map (\<lambda>b. if unat b < 128 then unat b else 0xFFFD) bs"

text \<open>\<^verbatim>\<open>bs.split(b"\x00")[0]\<close>: the bytes before the first null byte.\<close>

definition before_null :: "bytes \<Rightarrow> bytes" where
  "before_null bs = takeWhile (\<lambda>b. b \<noteq> 0) bs"

text \<open>\<^verbatim>\<open>str(b)\<close> for a byte: its decimal digits.\<close>

definition str_of_byte :: "byte \<Rightarrow> pystr" where
  "str_of_byte b =
     (let n = unat b in
      if n < 10 then [48 + n]
      else if n < 100 then [48 + n div 10, 48 + n mod 10]
      else [48 + n div 100, 48 + n div 10 mod 10, 48 + n mod 10])"

fun join_dot :: "pystr list \<Rightarrow> pystr" where
  "join_dot [] = []"
| "join_dot [p] = p"
| "join_dot (p # ps) = p @ [46] @ join_dot ps"

datatype Response =
    IdentifyResponse pystr pystr bytes
  | PresetResponse byte bytes
  | ActivePatchResponse byte
  | VolumeResponse byte
  | SystemResponse bytes
  | RawFrame Frame

definition parse_identify :: "Frame \<Rightarrow> Response option" where
  "parse_identify frame =
     (if command frame \<noteq> Command_value IDENTIFY then None
      else
        (let pl = payload frame in
         if length pl < 16 then
           Some (IdentifyResponse (pystr_of ''unknown'') (pystr_of ''unknown'') pl)
         else
           (let fw_bytes = pyslice pl 0 5;
                firmware_parts = map str_of_byte (filter (\<lambda>b. b \<noteq> 0) fw_bytes);
                firmware = (if firmware_parts \<noteq> [] then join_dot firmware_parts
                            else pystr_of ''unknown'');
                name_bytes = pyslice pl 5 16;
                device_name = decode_ascii (before_null name_bytes)
            in Some (IdentifyResponse firmware device_name pl))))"

definition parse_preset_response :: "Frame \<Rightarrow> Response option" where
  "parse_preset_response frame =
     (if command frame \<noteq> Command_value PRESET then None
      else if length (payload frame) < 1 then None
      else Some (PresetResponse (hd (payload frame)) (tl (payload frame))))"

definition parse_active_patch :: "Frame \<Rightarrow> Response option" where
  "parse_active_patch frame =
     (if command frame \<noteq> Command_value ACTIVE_PATCH then None
      else if length (payload frame) < 1 then None
      else Some (ActivePatchResponse (hd (payload frame))))"

definition parse_volume :: "Frame \<Rightarrow> Response option" where
  "parse_volume frame =
     (if command frame \<noteq> Command_value VOLUME then None
      else if length (payload frame) < 1 then None
      else Some (VolumeResponse (hd (payload frame))))"

definition parse_system :: "Frame \<Rightarrow> Response option" where
  "parse_system frame =
     (if command frame \<noteq> Command_value SYSTEM then None
      else Some (SystemResponse (payload frame)))"

text \<open>The dictionary \<^verbatim>\<open>parsers\<close> of \<^verbatim>\<open>parse_response\<close>.\<close>

definition parsers :: "Command \<rightharpoonup> (Frame \<Rightarrow> Response option)" where
  "parsers =
     map_of [(IDENTIFY, parse_identify), (PRESET, parse_preset_response),
             (ACTIVE_PATCH, parse_active_patch), (VOLUME, parse_volume),
             (SYSTEM, parse_system)]"

text \<open>
  \<^verbatim>\<open>parse_response\<close>: the key of the lookup is \<^verbatim>\<open>Command(frame.command)\<close>, evaluated
  before \<^verbatim>\<open>parsers.get\<close> is called.
\<close>

definition parse_response :: "Frame \<Rightarrow> error + Response" where
  "parse_response frame =
     (case Command_of (command frame) of
        Inl e \<Rightarrow> Inl e
      | Inr c \<Rightarrow>
          (case parsers c of
             Some parser \<Rightarrow>
               (case parser frame of
                  Some result \<Rightarrow> Inr result
                | None \<Rightarrow> Inr (RawFrame frame))
           | None \<Rightarrow> Inr (RawFrame frame)))"

section \<open>models/effects.py\<close>

text \<open>
  The dataclasses keep Python integers in their fields; \<^verbatim>\<open>bytes([...])\<close> raises ValueError
  when one of them is outside \<open>range(256)\<close>. A module's \<^verbatim>\<open>from_bytes\<close> pads its input to
  \<^verbatim>\<open>SIZE\<close> first, so every index it reads is in range.
\<close>

record EffectModule =
  header :: int
  enabled :: int
  type :: int

definition pad_to :: "nat \<Rightarrow> bytes \<Rightarrow> bytes" where
  "pad_to n d = (if length d < n then d @ replicate (n - length d) 0 else d)"

record FXModule = EffectModule +
  q :: int
  position :: int
  peak :: int
  level :: int
  reserved :: bytes

definition FXModule_SIZE :: nat where
  "FXModule_SIZE = 13"

definition FXModule_to_bytes :: "FXModule \<Rightarrow> error + bytes" where
  "FXModule_to_bytes m =
     (case bytes_of_ints [header m, enabled m, type m, q m, position m, peak m, FXModule.level m] of
        Inl e \<Rightarrow> Inl e
      | Inr b \<Rightarrow> Inr (b @ pyslice (FXModule.reserved m) 0 6))"

definition FXModule_from_bytes :: "bytes \<Rightarrow> FXModule" where
  "FXModule_from_bytes data =
     (let d = pad_to FXModule_SIZE data in
      \<lparr>header = uint (d ! 0), enabled = uint (d ! 1), type = uint (d ! 2),
       q = uint (d ! 3), position = uint (d ! 4), peak = uint (d ! 5), FXModule.level = uint (d ! 6),
       FXModule.reserved = pyslice d 7 13\<rparr>)"

record DistortionModule = EffectModule +
  volume :: int
  tone :: int
  gain :: int
  reserved :: bytes

definition DistortionModule_SIZE :: nat where
  "DistortionModule_SIZE = 11"

definition DistortionModule_to_bytes :: "DistortionModule \<Rightarrow> error + bytes" where
  "DistortionModule_to_bytes m =
     (case bytes_of_ints [header m, enabled m, type m, volume m, DistortionModule.tone m, gain m] of
        Inl e \<Rightarrow> Inl e
      | Inr b \<Rightarrow> Inr (b @ pyslice (DistortionModule.reserved m) 0 5))"

definition DistortionModule_from_bytes :: "bytes \<Rightarrow> DistortionModule" where
  "DistortionModule_from_bytes data =
     (let d = pad_to DistortionModule_SIZE data in
      \<lparr>header = uint (d ! 0), enabled = uint (d ! 1), type = uint (d ! 2),
       volume = uint (d ! 3), DistortionModule.tone = uint (d ! 4), gain = uint (d ! 5),
       DistortionModule.reserved = pyslice d 6 11\<rparr>)"

record AmpModule = EffectModule +
  amp_gain :: int
  bass :: int
  mid :: int
  treble :: int
  presence :: int
  master :: int
  reserved :: bytes

definition AmpModule_SIZE :: nat where
  "AmpModule_SIZE = 17"

definition AmpModule_to_bytes :: "AmpModule \<Rightarrow> error + bytes" where
  "AmpModule_to_bytes m =
     (case bytes_of_ints [header m, enabled m, type m, amp_gain m, bass m, mid m, treble m, presence m, master m] of
        Inl e \<Rightarrow> Inl e
      | Inr b \<Rightarrow> Inr (b @ pyslice (AmpModule.reserved m) 0 8))"

definition AmpModule_from_bytes :: "bytes \<Rightarrow> AmpModule" where
  "AmpModule_from_bytes data =
     (let d = pad_to AmpModule_SIZE data in
      \<lparr>header = uint (d ! 0), enabled = uint (d ! 1), type = uint (d ! 2),
       amp_gain = uint (d ! 3), bass = uint (d ! 4), mid = uint (d ! 5), treble = uint (d ! 6), presence = uint (d ! 7), master = uint (d ! 8),
       AmpModule.reserved = pyslice d 9 17\<rparr>)"

record CabModule = EffectModule +
  mic :: int
  center :: int
  distance :: int
  tube :: int
  reserved :: bytes

definition CabModule_SIZE :: nat where
  "CabModule_SIZE = 13"

definition CabModule_to_bytes :: "CabModule \<Rightarrow> error + bytes" where
  "CabModule_to_bytes m =
     (case bytes_of_ints [header m, enabled m, type m, mic m, center m, distance m, tube m] of
        Inl e \<Rightarrow> Inl e
      | Inr b \<Rightarrow> Inr (b @ pyslice (CabModule.reserved m) 0 6))"

definition CabModule_from_bytes :: "bytes \<Rightarrow> CabModule" where
  "CabModule_from_bytes data =
     (let d = pad_to CabModule_SIZE data in
      \<lparr>header = uint (d ! 0), enabled = uint (d ! 1), type = uint (d ! 2),
       mic = uint (d ! 3), center = uint (d ! 4), distance = uint (d ! 5), tube = uint (d ! 6),
       CabModule.reserved = pyslice d 7 13\<rparr>)"

record NoiseGateModule = EffectModule +
  attack :: int
  release :: int
  threshold :: int
  reserved :: bytes

definition NoiseGateModule_SIZE :: nat where
  "NoiseGateModule_SIZE = 11"

definition NoiseGateModule_to_bytes :: "NoiseGateModule \<Rightarrow> error + bytes" where
  "NoiseGateModule_to_bytes m =
     (case bytes_of_ints [header m, enabled m, type m, attack m, release m, threshold m] of
        Inl e \<Rightarrow> Inl e
      | Inr b \<Rightarrow> Inr (b @ pyslice (NoiseGateModule.reserved m) 0 5))"

definition NoiseGateModule_from_bytes :: "bytes \<Rightarrow> NoiseGateModule" where
  "NoiseGateModule_from_bytes data =
     (let d = pad_to NoiseGateModule_SIZE data in
      \<lparr>header = uint (d ! 0), enabled = uint (d ! 1), type = uint (d ! 2),
       attack = uint (d ! 3), release = uint (d ! 4), threshold = uint (d ! 5),
       NoiseGateModule.reserved = pyslice d 6 11\<rparr>)"

record EQModule = EffectModule +
  bands :: "int list"
  bands_extra :: "int list"
  reserved :: bytes

definition EQModule_SIZE :: nat where
  "EQModule_SIZE = 23"

definition EQModule_to_bytes :: "EQModule \<Rightarrow> error + bytes" where
  "EQModule_to_bytes m =
     (case bytes_of_ints ([header m, enabled m, type m]
                          @ pyslice (bands m) 0 6 @ pyslice (bands_extra m) 0 6) of
        Inl e \<Rightarrow> Inl e
      | Inr b \<Rightarrow> Inr (b @ pyslice (EQModule.reserved m) 0 8))"

definition EQModule_from_bytes :: "bytes \<Rightarrow> EQModule" where
  "EQModule_from_bytes data =
     (let d = pad_to EQModule_SIZE data in
      \<lparr>header = uint (d ! 0), enabled = uint (d ! 1), type = uint (d ! 2),
       bands = map uint (pyslice d 3 9),
       bands_extra = map uint (pyslice d 9 15),
       EQModule.reserved = pyslice d 15 23\<rparr>)"

record ModulationModule = EffectModule +
  rate :: int
  level :: int
  depth :: int
  param4 :: int
  param5 :: int
  reserved :: bytes

definition ModulationModule_SIZE :: nat where
  "ModulationModule_SIZE = 15"

definition ModulationModule_to_bytes :: "ModulationModule \<Rightarrow> error + bytes" where
  "ModulationModule_to_bytes m =
     (case bytes_of_ints [header m, enabled m, type m, rate m, ModulationModule.level m, depth m, param4 m, ModulationModule.param5 m] of
        Inl e \<Rightarrow> Inl e
      | Inr b \<Rightarrow> Inr (b @ pyslice (ModulationModule.reserved m) 0 7))"

definition ModulationModule_from_bytes :: "bytes \<Rightarrow> ModulationModule" where
  "ModulationModule_from_bytes data =
     (let d = pad_to ModulationModule_SIZE data in
      \<lparr>header = uint (d ! 0), enabled = uint (d ! 1), type = uint (d ! 2),
       rate = uint (d ! 3), ModulationModule.level = uint (d ! 4), depth = uint (d ! 5), param4 = uint (d ! 6), ModulationModule.param5 = uint (d ! 7),
       ModulationModule.reserved = pyslice d 8 15\<rparr>)"

record DelayModule = EffectModule +
  level :: int
  feedback :: int
  time_ms :: int
  subdivision :: int
  param5 :: int
  param6 :: int
  reserved :: bytes

definition DelayModule_SIZE :: nat where
  "DelayModule_SIZE = 17"

definition DelayModule_to_bytes :: "DelayModule \<Rightarrow> error + bytes" where
  "DelayModule_to_bytes m =
     (let time_lo = time_ms m AND 0xFF;
          time_hi = drop_bit 8 (time_ms m) AND 0xFF
      in case bytes_of_ints [header m, enabled m, type m,
                             DelayModule.level m, feedback m, time_lo, time_hi,
                             subdivision m, DelayModule.param5 m, param6 m] of
           Inl e \<Rightarrow> Inl e
         | Inr b \<Rightarrow> Inr (b @ pyslice (DelayModule.reserved m) 0 7))"

definition DelayModule_from_bytes :: "bytes \<Rightarrow> DelayModule" where
  "DelayModule_from_bytes data =
     (let d = pad_to DelayModule_SIZE data;
          t = uint (d ! 5) OR push_bit 8 (uint (d ! 6))
      in \<lparr>header = uint (d ! 0), enabled = uint (d ! 1), type = uint (d ! 2),
          DelayModule.level = uint (d ! 3), feedback = uint (d ! 4),
          time_ms = t,
          subdivision = uint (d ! 7), DelayModule.param5 = uint (d ! 8), param6 = uint (d ! 9),
          DelayModule.reserved = pyslice d 10 17\<rparr>)"

record ReverbModule = EffectModule +
  pre_delay :: int
  level :: int
  decay :: int
  tone :: int
  reserved :: bytes

definition ReverbModule_SIZE :: nat where
  "ReverbModule_SIZE = 13"

definition ReverbModule_to_bytes :: "ReverbModule \<Rightarrow> error + bytes" where
  "ReverbModule_to_bytes m =
     (case bytes_of_ints [header m, enabled m, type m, pre_delay m, ReverbModule.level m, decay m, ReverbModule.tone m] of
        Inl e \<Rightarrow> Inl e
      | Inr b \<Rightarrow> Inr (b @ pyslice (ReverbModule.reserved m) 0 6))"

definition ReverbModule_from_bytes :: "bytes \<Rightarrow> ReverbModule" where
  "ReverbModule_from_bytes data =
     (let d = pad_to ReverbModule_SIZE data in
      \<lparr>header = uint (d ! 0), enabled = uint (d ! 1), type = uint (d ! 2),
       pre_delay = uint (d ! 3), ReverbModule.level = uint (d ! 4), decay = uint (d ! 5), ReverbModule.tone = uint (d ! 6),
       ReverbModule.reserved = pyslice d 7 13\<rparr>)"

section \<open>models/preset.py\<close>

definition PRESET_SIZE :: nat where "PRESET_SIZE = 0x200"
definition OFF_EFFECT_ORDER :: nat where "OFF_EFFECT_ORDER = 0x00"
definition OFF_SIZE :: nat where "OFF_SIZE = 0x0A"
definition OFF_NAME :: nat where "OFF_NAME = 0x0C"
definition OFF_FX :: nat where "OFF_FX = 0x1A"
definition OFF_OD :: nat where "OFF_OD = 0x27"
definition OFF_AMP :: nat where "OFF_AMP = 0x32"
definition OFF_CAB :: nat where "OFF_CAB = 0x43"
definition OFF_NS :: nat where "OFF_NS = 0x50"
definition OFF_EQ :: nat where "OFF_EQ = 0x5B"
definition OFF_MOD :: nat where "OFF_MOD = 0x72"
definition OFF_DELAY :: nat where "OFF_DELAY = 0x81"
definition OFF_REVERB :: nat where "OFF_REVERB = 0x92"

record Preset =
  effect_order :: "int list"
  name :: pystr
  fx :: FXModule
  od :: DistortionModule
  amp :: AmpModule
  cab :: CabModule
  ns :: NoiseGateModule
  eq :: EQModule
  mod_module :: ModulationModule
  delay :: DelayModule
  reverb :: ReverbModule

text \<open>\<^verbatim>\<open>s.encode("ascii", errors="replace")\<close>: a code point from 128 on becomes \<^verbatim>\<open>?\<close>.\<close>

definition encode_ascii :: "pystr \<Rightarrow> bytes" where
  "encode_ascii s = map (\<lambda>c. if c < 128 then word_of_nat c else 0x3F) s"

text \<open>
  The loop \<^verbatim>\<open>for i, val in enumerate(self.effect_order[:10]): buf[OFF_EFFECT_ORDER + i] = val & 0xFF\<close>,
  from index \<open>i\<close> on. The indices stay below 10 in a buffer of 512 bytes, so the item
  assignment cannot raise.
\<close>

fun write_effect_order :: "bytes \<Rightarrow> nat \<Rightarrow> int list \<Rightarrow> bytes" where
  "write_effect_order buf i [] = buf"
| "write_effect_order buf i (val # vals) =
     write_effect_order (buf[OFF_EFFECT_ORDER + i := word_of_int (val AND 0xFF)]) (i + 1) vals"

text \<open>\<^verbatim>\<open>buf[off : off + size] = module.to_bytes()\<close>: the module is serialised first.\<close>

definition write_module :: "bytes \<Rightarrow> nat \<Rightarrow> nat \<Rightarrow> error + bytes \<Rightarrow> error + bytes" where
  "write_module buf off sz m =
     (case m of
        Inl e \<Rightarrow> Inl e
      | Inr b \<Rightarrow> Inr (pyslice_assign buf off (off + sz) b))"

definition Preset_to_bytes :: "Preset \<Rightarrow> error + bytes" where
  "Preset_to_bytes p =
     (let buf0 = replicate PRESET_SIZE (0 :: byte);
          buf1 = write_effect_order buf0 0 (pyslice (effect_order p) 0 10);
          data_size = PRESET_SIZE - OFF_SIZE - 2;
          buf2 = buf1[OFF_SIZE := word_of_nat (drop_bit 8 data_size AND 0xFF)];
          buf3 = buf2[OFF_SIZE + 1 := word_of_nat (data_size AND 0xFF)];
          name_bytes = pyslice (encode_ascii (name p)) 0 14;
          buf4 = pyslice_assign buf3 OFF_NAME (OFF_NAME + length name_bytes) name_bytes
      in case write_module buf4 OFF_FX FXModule_SIZE (FXModule_to_bytes (fx p)) of
        Inl e \<Rightarrow> Inl e
      | Inr b5 \<Rightarrow>
      case write_module b5 OFF_OD DistortionModule_SIZE (DistortionModule_to_bytes (od p)) of
        Inl e \<Rightarrow> Inl e
      | Inr b6 \<Rightarrow>
      case write_module b6 OFF_AMP AmpModule_SIZE (AmpModule_to_bytes (amp p)) of
        Inl e \<Rightarrow> Inl e
      | Inr b7 \<Rightarrow>
      case write_module b7 OFF_CAB CabModule_SIZE (CabModule_to_bytes (cab p)) of
        Inl e \<Rightarrow> Inl e
      | Inr b8 \<Rightarrow>
      case write_module b8 OFF_NS NoiseGateModule_SIZE (NoiseGateModule_to_bytes (ns p)) of
        Inl e \<Rightarrow> Inl e
      | Inr b9 \<Rightarrow>
      case write_module b9 OFF_EQ EQModule_SIZE (EQModule_to_bytes (eq p)) of
        Inl e \<Rightarrow> Inl e
      | Inr b10 \<Rightarrow>
      case write_module b10 OFF_MOD ModulationModule_SIZE
             (ModulationModule_to_bytes (mod_module p)) of
        Inl e \<Rightarrow> Inl e
      | Inr b11 \<Rightarrow>
      case write_module b11 OFF_DELAY DelayModule_SIZE (DelayModule_to_bytes (delay p)) of
        Inl e \<Rightarrow> Inl e
      | Inr b12 \<Rightarrow>
          write_module b12 OFF_REVERB ReverbModule_SIZE (ReverbModule_to_bytes (reverb p)))"

definition Preset_from_bytes :: "bytes \<Rightarrow> Preset" where
  "Preset_from_bytes data =
     (let d = pad_to PRESET_SIZE data;
          name_bytes = pyslice d OFF_NAME (OFF_NAME + 14)
      in \<lparr>effect_order = map uint (pyslice d OFF_EFFECT_ORDER (OFF_EFFECT_ORDER + 10)),
          name = decode_ascii (before_null name_bytes),
          fx = FXModule_from_bytes (pyslice d OFF_FX (OFF_FX + FXModule_SIZE)),
          od = DistortionModule_from_bytes (pyslice d OFF_OD (OFF_OD + DistortionModule_SIZE)),
          amp = AmpModule_from_bytes (pyslice d OFF_AMP (OFF_AMP + AmpModule_SIZE)),
          cab = CabModule_from_bytes (pyslice d OFF_CAB (OFF_CAB + CabModule_SIZE)),
          ns = NoiseGateModule_from_bytes (pyslice d OFF_NS (OFF_NS + NoiseGateModule_SIZE)),
          eq = EQModule_from_bytes (pyslice d OFF_EQ (OFF_EQ + EQModule_SIZE)),
          mod_module =
            ModulationModule_from_bytes (pyslice d OFF_MOD (OFF_MOD + ModulationModule_SIZE)),
          delay = DelayModule_from_bytes (pyslice d OFF_DELAY (OFF_DELAY + DelayModule_SIZE)),
          reverb =
            ReverbModule_from_bytes (pyslice d OFF_REVERB (OFF_REVERB + ReverbModule_SIZE))\<rparr>)"

section \<open>models/file\_formats.py\<close>





section \<open>Auxiliary definitions for the statements\<close>

text \<open>
  A concrete checksum function, to instantiate the parameter \<open>crc16\<close> at concrete inputs.
\<close>

definition crc_sample :: crc where
  "crc_sample body = NOT (word_of_nat (length body) + sum_list (map ucast body))"

text \<open>The report the loop of \<^verbatim>\<open>build_chunked_frames\<close> appends at an offset.\<close>

definition chunk_report :: "bytes \<Rightarrow> nat \<Rightarrow> bytes" where
  "chunk_report m off =
     word_of_nat (length (pyslice m off (off + 63))) # pyslice m off (off + 63)
       @ replicate (63 - length (pyslice m off (off + 63))) 0"

text \<open>
  The wire format in the specification's words: a message is
  \<open>[0xAA] [0x55] [body_len : u16-LE] [command] [payload] [checksum : u16-LE]\<close> with
  \<open>body_len = 1 + len(payload)\<close> and the checksum taken over command and payload; a
  single report is \<open>[len] message [zero padding to 64]\<close>, where \<open>len\<close> counts the bytes
  of the message.
\<close>

definition le16 :: "nat \<Rightarrow> bytes" where
  "le16 n = [word_of_nat (n mod 256), word_of_nat (n div 256)]"

definition wire_message :: "crc \<Rightarrow> byte \<Rightarrow> bytes \<Rightarrow> bytes" where
  "wire_message crc16 cmd pl =
     [0xAA, 0x55] @ le16 (1 + length pl) @ [cmd] @ pl @ le16 (unat (crc16 (cmd # pl)))"

definition wire_report :: "crc \<Rightarrow> byte \<Rightarrow> bytes \<Rightarrow> bytes" where
  "wire_report crc16 cmd pl =
     (let msg = wire_message crc16 cmd pl
      in word_of_nat (length msg) # msg @ replicate (63 - length msg) 0)"

text \<open>The meaningful bytes of a report: as many as its first byte declares, after it.\<close>

definition meaningful :: "bytes \<Rightarrow> bytes" where
  "meaningful r = take (unat (hd r)) (tl r)"

text \<open>The command identifiers of the nine effect modules, as the specification lists them.\<close>

definition module_ids :: "(string \<times> byte) list" where
  "module_ids =
     [(''fx'', 0x90), (''od'', 0x91), (''amp'', 0x93), (''cab'', 0x94), (''ns'', 0x95),
      (''eq'', 0x96), (''mod'', 0x97), (''delay'', 0x98), (''reverb'', 0x99)]"


section \<open>Field constraints\<close>

definition is_byte :: "int \<Rightarrow> bool" where
  "is_byte n = (0 \<le> n \<and> n \<le> 255)"

text \<open>
  A module is \<^emph>\<open>encodable\<close> when each integer its \<^verbatim>\<open>to_bytes\<close> hands to \<^verbatim>\<open>bytes([...])\<close>
  is a byte value and its \<^verbatim>\<open>reserved\<close> field (and each EQ band group) has at least the
  declared length. It is \<^emph>\<open>valid\<close> when, moreover, these lengths are exactly the declared
  ones and the delay time is in \<open>0..65535\<close>.
\<close>

definition encodable_FXModule :: "FXModule \<Rightarrow> bool" where
  "encodable_FXModule m =
     (list_all is_byte [header m, enabled m, type m, q m, position m, peak m, FXModule.level m]
      \<and> 6 \<le> length (FXModule.reserved m))"

definition valid_FXModule :: "FXModule \<Rightarrow> bool" where
  "valid_FXModule m = (encodable_FXModule m \<and> length (FXModule.reserved m) = 6)"

definition encodable_DistortionModule :: "DistortionModule \<Rightarrow> bool" where
  "encodable_DistortionModule m =
     (list_all is_byte [header m, enabled m, type m, volume m, DistortionModule.tone m, gain m]
      \<and> 5 \<le> length (DistortionModule.reserved m))"

definition valid_DistortionModule :: "DistortionModule \<Rightarrow> bool" where
  "valid_DistortionModule m = (encodable_DistortionModule m \<and> length (DistortionModule.reserved m) = 5)"

definition encodable_AmpModule :: "AmpModule \<Rightarrow> bool" where
  "encodable_AmpModule m =
     (list_all is_byte [header m, enabled m, type m, amp_gain m, bass m, mid m, treble m, presence m, master m]
      \<and> 8 \<le> length (AmpModule.reserved m))"

definition valid_AmpModule :: "AmpModule \<Rightarrow> bool" where
  "valid_AmpModule m = (encodable_AmpModule m \<and> length (AmpModule.reserved m) = 8)"

definition encodable_CabModule :: "CabModule \<Rightarrow> bool" where
  "encodable_CabModule m =
     (list_all is_byte [header m, enabled m, type m, mic m, center m, distance m, tube m]
      \<and> 6 \<le> length (CabModule.reserved m))"

definition valid_CabModule :: "CabModule \<Rightarrow> bool" where
  "valid_CabModule m = (encodable_CabModule m \<and> length (CabModule.reserved m) = 6)"

definition encodable_NoiseGateModule :: "NoiseGateModule \<Rightarrow> bool" where
  "encodable_NoiseGateModule m =
     (list_all is_byte [header m, enabled m, type m, attack m, release m, threshold m]
      \<and> 5 \<le> length (NoiseGateModule.reserved m))"

definition valid_NoiseGateModule :: "NoiseGateModule \<Rightarrow> bool" where
  "valid_NoiseGateModule m = (encodable_NoiseGateModule m \<and> length (NoiseGateModule.reserved m) = 5)"

definition encodable_EQModule :: "EQModule \<Rightarrow> bool" where
  "encodable_EQModule m =
     (list_all is_byte [header m, enabled m, type m]
      \<and> 6 \<le> length (bands m) \<and> list_all is_byte (take 6 (bands m))
      \<and> 6 \<le> length (bands_extra m) \<and> list_all is_byte (take 6 (bands_extra m))
      \<and> 8 \<le> length (EQModule.reserved m))"

definition valid_EQModule :: "EQModule \<Rightarrow> bool" where
  "valid_EQModule m =
     (encodable_EQModule m \<and> length (bands m) = 6 \<and> length (bands_extra m) = 6
      \<and> length (EQModule.reserved m) = 8)"

definition encodable_ModulationModule :: "ModulationModule \<Rightarrow> bool" where
  "encodable_ModulationModule m =
     (list_all is_byte [header m, enabled m, type m, rate m, ModulationModule.level m, depth m, param4 m, ModulationModule.param5 m]
      \<and> 7 \<le> length (ModulationModule.reserved m))"

definition valid_ModulationModule :: "ModulationModule \<Rightarrow> bool" where
  "valid_ModulationModule m = (encodable_ModulationModule m \<and> length (ModulationModule.reserved m) = 7)"

definition encodable_DelayModule :: "DelayModule \<Rightarrow> bool" where
  "encodable_DelayModule m =
     (list_all is_byte [header m, enabled m, type m, DelayModule.level m, feedback m, subdivision m, DelayModule.param5 m, param6 m]
      \<and> 7 \<le> length (DelayModule.reserved m))"

definition valid_DelayModule :: "DelayModule \<Rightarrow> bool" where
  "valid_DelayModule m = (encodable_DelayModule m \<and> length (DelayModule.reserved m) = 7 \<and> 0 \<le> time_ms m \<and> time_ms m \<le> 65535)"

definition encodable_ReverbModule :: "ReverbModule \<Rightarrow> bool" where
  "encodable_ReverbModule m =
     (list_all is_byte [header m, enabled m, type m, pre_delay m, ReverbModule.level m, decay m, ReverbModule.tone m]
      \<and> 6 \<le> length (ReverbModule.reserved m))"

definition valid_ReverbModule :: "ReverbModule \<Rightarrow> bool" where
  "valid_ReverbModule m = (encodable_ReverbModule m \<and> length (ReverbModule.reserved m) = 6)"

definition encodable_Preset :: "Preset \<Rightarrow> bool" where
  "encodable_Preset p =
     (encodable_FXModule (fx p) \<and> encodable_DistortionModule (od p)
      \<and> encodable_AmpModule (amp p) \<and> encodable_CabModule (cab p)
      \<and> encodable_NoiseGateModule (ns p) \<and> encodable_EQModule (eq p)
      \<and> encodable_ModulationModule (mod_module p) \<and> encodable_DelayModule (delay p)
      \<and> encodable_ReverbModule (reverb p))"

text \<open>
  The valid presets of the round-trip law: a name of at most 14 ASCII characters without
  a null, an effect order of 10 byte values, and nine valid modules.
\<close>

definition valid_Preset :: "Preset \<Rightarrow> bool" where
  "valid_Preset p =
     (length (name p) \<le> 14 \<and> list_all (\<lambda>c. 0 < c \<and> c < 128) (name p)
      \<and> length (effect_order p) = 10 \<and> list_all is_byte (effect_order p)
      \<and> valid_FXModule (fx p) \<and> valid_DistortionModule (od p)
      \<and> valid_AmpModule (amp p) \<and> valid_CabModule (cab p)
      \<and> valid_NoiseGateModule (ns p) \<and> valid_EQModule (eq p)
      \<and> valid_ModulationModule (mod_module p) \<and> valid_DelayModule (delay p)
      \<and> valid_ReverbModule (reverb p))"

section \<open>The dataclass defaults\<close>

definition FXModule_default :: FXModule where
  "FXModule_default =
     \<lparr>header = 0, enabled = 0, type = 0,
      q = 0, position = 0, peak = 0, FXModule.level = 0,
      FXModule.reserved = replicate 6 0\<rparr>"

definition DistortionModule_default :: DistortionModule where
  "DistortionModule_default =
     \<lparr>header = 0, enabled = 0, type = 0,
      volume = 0, DistortionModule.tone = 0, gain = 0,
      DistortionModule.reserved = replicate 5 0\<rparr>"

definition AmpModule_default :: AmpModule where
  "AmpModule_default =
     \<lparr>header = 0, enabled = 0, type = 0,
      amp_gain = 0, bass = 0, mid = 0, treble = 0, presence = 0, master = 0,
      AmpModule.reserved = replicate 8 0\<rparr>"

definition CabModule_default :: CabModule where
  "CabModule_default =
     \<lparr>header = 0, enabled = 0, type = 0,
      mic = 0, center = 0, distance = 0, tube = 0,
      CabModule.reserved = replicate 6 0\<rparr>"

definition NoiseGateModule_default :: NoiseGateModule where
  "NoiseGateModule_default =
     \<lparr>header = 0, enabled = 0, type = 0,
      attack = 0, release = 0, threshold = 0,
      NoiseGateModule.reserved = replicate 5 0\<rparr>"

definition EQModule_default :: EQModule where
  "EQModule_default =
     \<lparr>header = 0, enabled = 0, type = 0,
      bands = replicate 6 0, bands_extra = replicate 6 0,
      EQModule.reserved = replicate 8 0\<rparr>"

definition ModulationModule_default :: ModulationModule where
  "ModulationModule_default =
     \<lparr>header = 0, enabled = 0, type = 0,
      rate = 0, ModulationModule.level = 0, depth = 0, param4 = 0, ModulationModule.param5 = 0,
      ModulationModule.reserved = replicate 7 0\<rparr>"

definition DelayModule_default :: DelayModule where
  "DelayModule_default =
     \<lparr>header = 0, enabled = 0, type = 0,
      DelayModule.level = 0, feedback = 0, time_ms = 0, subdivision = 0, DelayModule.param5 = 0, param6 = 0,
      DelayModule.reserved = replicate 7 0\<rparr>"

definition ReverbModule_default :: ReverbModule where
  "ReverbModule_default =
     \<lparr>header = 0, enabled = 0, type = 0,
      pre_delay = 0, ReverbModule.level = 0, decay = 0, ReverbModule.tone = 0,
      ReverbModule.reserved = replicate 6 0\<rparr>"

definition Preset_default :: Preset where
  "Preset_default =
     \<lparr>effect_order = [0, 1, 2, 3, 4, 5, 6, 7, 8, 9], name = [],
      fx = FXModule_default, od = DistortionModule_default, amp = AmpModule_default,
      cab = CabModule_default, ns = NoiseGateModule_default, eq = EQModule_default,
      mod_module = ModulationModule_default, delay = DelayModule_default,
      reverb = ReverbModule_default\<rparr>"

text \<open>A preset with a name, a reordered chain, EQ bands and a 16-bit delay time.\<close>

definition Preset_sample :: Preset where
  "Preset_sample =
     Preset_default
       \<lparr>effect_order := [8, 7, 6, 5, 4, 3, 2, 1, 0, 9],
        name := pystr_of ''Test Preset'',
        eq := EQModule_default\<lparr>enabled := 1, bands := [10, 20, 30, 40, 50, 60]\<rparr>,
        delay := DelayModule_default\<lparr>enabled := 1, type := 1, time_ms := 1500\<rparr>\<rparr>"


section \<open>The buffer of a preset, as a sequence of slice assignments\<close>

definition preset_buffer ::
  "bytes \<Rightarrow> bytes \<Rightarrow> bytes \<Rightarrow> bytes \<Rightarrow> bytes \<Rightarrow> bytes \<Rightarrow> bytes \<Rightarrow> bytes \<Rightarrow> bytes \<Rightarrow> bytes \<Rightarrow> bytes \<Rightarrow> bytes"
  where
  "preset_buffer eo nm fxb odb ampb cabb nsb eqb modb delb revb =
     pyslice_assign (pyslice_assign (pyslice_assign (pyslice_assign (pyslice_assign
     (pyslice_assign (pyslice_assign (pyslice_assign (pyslice_assign
       (pyslice_assign (pyslice_assign (pyslice_assign (pyslice_assign
          (replicate 512 0) 0 (0 + length eo) eo) 10 (10 + 1) [0x01]) 11 (11 + 1) [0xF4])
          12 (12 + length nm) nm)
       26 (26 + 13) fxb) 39 (39 + 11) odb) 50 (50 + 17) ampb) 67 (67 + 13) cabb)
       80 (80 + 11) nsb) 91 (91 + 23) eqb) 114 (114 + 15) modb) 129 (129 + 17) delb)
       146 (146 + 13) revb"


section \<open>Bytes and slices: basic facts\<close>

lemma from_bytes_le_pair:
  assumes "n < 65536"
  shows "from_bytes_le [word_of_nat (n mod 256), word_of_nat (n div 256)] = n"
proof -
  have lo: "unat (word_of_nat (n mod 256) :: byte) = n mod 256"
    by (simp add: unat_of_nat)
  have "n div 256 < 256" using assms by simp
  then have hi: "unat (word_of_nat (n div 256) :: byte) = n div 256"
    by (simp add: unat_of_nat)
  show ?thesis using lo hi by simp
qed

lemma unat_crc_bound: "unat (w :: 16 word) < 65536"
  using unsigned_less [of w, where 'a = nat] by simp

lemma unat_byte_of_nat: "n < 256 \<Longrightarrow> unat (word_of_nat n :: byte) = n"
  using unat_of_nat [of n, where 'a = 8] by simp

lemma drop_6_Cons: "drop (6 + n) (a # b # c # d # e # f # xs) = drop n xs"
  by (simp add: eval_nat_numeral)

lemma drop_5_Cons: "drop (5 + n) (a # b # c # d # e # xs) = drop n xs"
  by (simp add: eval_nat_numeral)

section \<open>Frames: building and parsing\<close>

text \<open>The bytes of the message for a command and a payload, before any HID prefix.\<close>

lemma build_frame_small:
  assumes "length pl \<le> 56"
  shows "build_frame crc cmd pl =
     Inr (word_of_nat (length pl + 7) # PREAMBLE
          @ [word_of_nat (Suc (length pl) mod 256), word_of_nat (Suc (length pl) div 256)]
          @ (cmd # pl)
          @ [word_of_nat (unat (crc (cmd # pl)) mod 256),
             word_of_nat (unat (crc (cmd # pl)) div 256)]
          @ replicate (56 - length pl) 0)"
  using assms unat_crc_bound [of "crc (cmd # pl)"]
  by (simp add: build_frame_def to_bytes2_def byte_of_int_def PREAMBLE_def
      HID_REPORT_SIZE_def Let_def)

lemma parse_frame_layout:
  assumes n: "length pl < 65535" and h: "7 \<le> unat h"
  shows "parse_frame crc (h # PREAMBLE
          @ [word_of_nat (Suc (length pl) mod 256), word_of_nat (Suc (length pl) div 256)]
          @ (cmd # pl)
          @ [word_of_nat (unat (crc (cmd # pl)) mod 256),
             word_of_nat (unat (crc (cmd # pl)) div 256)]
          @ pad) = Inr (Some \<lparr>command = cmd, payload = pl\<rparr>)"
proof -
  let ?sz = "[word_of_nat (Suc (length pl) mod 256),
              word_of_nat (Suc (length pl) div 256)] :: bytes"
  let ?ck = "[word_of_nat (unat (crc (cmd # pl)) mod 256),
              word_of_nat (unat (crc (cmd # pl)) div 256)] :: bytes"
  let ?data = "h # PREAMBLE @ ?sz @ (cmd # pl) @ ?ck @ pad"
  have sz: "from_bytes_le ?sz = Suc (length pl)"
    using n by (intro from_bytes_le_pair) simp
  have ck: "from_bytes_le ?ck = unat (crc (cmd # pl))"
    by (intro from_bytes_le_pair unat_crc_bound)
  have s13: "pyslice ?data 1 3 = PREAMBLE" by (simp add: pyslice_def PREAMBLE_def)
  have s35: "pyslice ?data 3 5 = ?sz" by (simp add: pyslice_def PREAMBLE_def)
  have i0: "pyindex ?data 0 = Inr h" by (simp add: pyindex_def)
  have i5: "pyindex ?data 5 = Inr cmd" by (simp add: pyindex_def PREAMBLE_def)
  have pl: "pyslice ?data 6 (5 + Suc (length pl)) = pl"
    by (simp add: pyslice_def PREAMBLE_def)
  have body: "pyslice ?data 5 (5 + Suc (length pl)) = cmd # pl"
    by (simp add: pyslice_def PREAMBLE_def)
  have "drop (6 + length pl) ?data = ?ck @ pad"
    by (simp add: PREAMBLE_def drop_6_Cons)
  then have cks: "pyslice ?data (5 + Suc (length pl)) (5 + Suc (length pl) + 2) = ?ck"
    by (simp add: pyslice_def)
  have len: "\<not> length ?data < 8" by (simp add: PREAMBLE_def)
  show ?thesis
    unfolding parse_frame_def Let_def
    using h by (simp only: len i0 s13 s35 sz pl body cks ck i5 if_False sum.case) simp
qed

text \<open>
  C1. For every command byte and every payload with \<open>1 + len(payload) \<le> 57\<close>,
  \<^verbatim>\<open>build_frame\<close> returns a report and \<^verbatim>\<open>parse_frame\<close> recovers from it the frame with
  that command and that payload.
\<close>

theorem parse_frame_build_frame:
  assumes "1 + length pl \<le> 57"
  shows "\<exists>r. build_frame crc cmd pl = Inr r \<and>
             parse_frame crc r = Inr (Some \<lparr>command = cmd, payload = pl\<rparr>)"
proof -
  have le: "length pl \<le> 56" using assms by simp
  have "unat (word_of_nat (length pl + 7) :: byte) = length pl + 7"
    using le by (intro unat_byte_of_nat) simp
  then have h: "7 \<le> unat (word_of_nat (length pl + 7) :: byte)" by simp
  have n: "length pl < 65535" using le by simp
  show ?thesis
    unfolding build_frame_small [OF le]
    using parse_frame_layout [OF n h] by simp
qed

theorem parse_frame_build_frame_witness:
  "1 + length [0x02 :: byte] \<le> 57 \<and>
   (\<exists>r. build_frame crc_sample 0xA6 [0x02] = Inr r \<and>
        parse_frame crc_sample r = Inr (Some \<lparr>command = 0xA6, payload = [0x02]\<rparr>))"
  using parse_frame_build_frame [of "[0x02]" crc_sample "0xA6"] by simp





section \<open>Chunked messages\<close>


lemma chunk_loop_step:
  "off < length m \<Longrightarrow>
   chunk_loop m off frames = chunk_loop m (off + 63) (frames @ [chunk_report m off])"
  by (subst chunk_loop.simps) (simp add: Let_def chunk_report_def)

lemma chunk_loop_done: "\<not> off < length m \<Longrightarrow> chunk_loop m off frames = frames"
  by (subst chunk_loop.simps) simp

lemma chunk_report_length: "length (chunk_report m off) = 64"
  by (simp add: chunk_report_def pyslice_def)

lemma chunk_loop_lengths:
  "\<forall>r \<in> set frames. length r = 64 \<Longrightarrow> \<forall>r \<in> set (chunk_loop m off frames). length r = 64"
proof (induction "length m - off" arbitrary: off frames rule: less_induct)
  case less
  show ?case
  proof (cases "off < length m")
    case True
    have "\<forall>r \<in> set (frames @ [chunk_report m off]). length r = 64"
      using less.prems chunk_report_length [of m off] by simp
    moreover have "length m - (off + 63) < length m - off" using True by simp
    ultimately have "\<forall>r \<in> set (chunk_loop m (off + 63) (frames @ [chunk_report m off])). length r = 64"
      using less.hyps by blast
    then show ?thesis by (simp only: chunk_loop_step [OF True])
  next
    case False
    then show ?thesis
      using less.prems by (simp add: chunk_loop_done)
  qed
qed




lemma chunks_count_step:
  fixes n :: nat
  assumes "0 < n"
  shows "(n + 62) div 63 = Suc ((n - 63 + 62) div 63)"
proof (cases "63 \<le> n")
  case True
  then have "n + 62 = (n - 63 + 62) + 63" by simp
  then show ?thesis by (simp only: div_add_self2)
next
  case False
  then have "(n + 62) div 63 = 1" using assms by (simp add: div_eq_dividend_iff le_div_geq)
  moreover have "(n - 63 + 62) div 63 = 0" using False by simp
  ultimately show ?thesis by simp
qed

lemma chunk_loop_length:
  "length (chunk_loop m off frames) = length frames + (length m - off + 62) div 63"
proof (induction "length m - off" arbitrary: off frames rule: less_induct)
  case less
  show ?case
  proof (cases "off < length m")
    case True
    have "length m - (off + 63) < length m - off" using True by simp
    then have "length (chunk_loop m (off + 63) (frames @ [chunk_report m off]))
                 = length (frames @ [chunk_report m off]) + (length m - (off + 63) + 62) div 63"
      using less.hyps by blast
    then have a: "length (chunk_loop m off frames)
                 = length frames + Suc ((length m - (off + 63) + 62) div 63)"
      by (simp only: chunk_loop_step [OF True]) simp
    have "(length m - off + 62) div 63 = Suc ((length m - off - 63 + 62) div 63)"
      using True by (intro chunks_count_step) simp
    moreover have "length m - off - 63 = length m - (off + 63)" by simp
    ultimately have "(length m - off + 62) div 63 = Suc ((length m - (off + 63) + 62) div 63)"
      by (simp only:)
    then show ?thesis by (simp only: a)
  next
    case False
    then show ?thesis by (simp add: chunk_loop_done)
  qed
qed

lemma assemble_append: "assemble acc (xs @ ys) = assemble (assemble acc xs) ys"
  by (induction xs arbitrary: acc) (simp_all add: Let_def)

lemma pyslice_after_head: "pyslice (h # c @ p) 1 (1 + length c) = c"
  by (simp add: pyslice_def)

lemma assemble_chunk_report: "assemble acc [chunk_report m off] = acc @ take 63 (drop off m)"
proof -
  let ?chunk = "pyslice m off (off + 63)"
  let ?pad = "replicate (63 - length ?chunk) (0 :: byte)"
  have chunk: "?chunk = take 63 (drop off m)" by (simp add: pyslice_def)
  have cr: "chunk_report m off = word_of_nat (length ?chunk) # ?chunk @ ?pad"
    by (simp only: chunk_report_def)
  have "length ?chunk \<le> 63" by (simp add: pyslice_def)
  then have u: "unat (word_of_nat (length ?chunk) :: byte) = length ?chunk"
    by (intro unat_byte_of_nat) simp
  have "assemble acc [chunk_report m off]
          = acc @ pyslice (word_of_nat (length ?chunk) # ?chunk @ ?pad) 1 (1 + length ?chunk)"
    by (simp only: cr assemble.simps list.sel u Let_def) simp
  then show ?thesis by (simp only: pyslice_after_head chunk)
qed

lemma assemble_chunk_loop:
  "assemble acc (chunk_loop m off frames) = assemble acc frames @ drop off m"
proof (induction "length m - off" arbitrary: off frames rule: less_induct)
  case less
  show ?case
  proof (cases "off < length m")
    case True
    have "length m - (off + 63) < length m - off" using True by simp
    then have "assemble acc (chunk_loop m (off + 63) (frames @ [chunk_report m off]))
                 = assemble acc (frames @ [chunk_report m off]) @ drop (off + 63) m"
      using less.hyps by blast
    also have "\<dots> = assemble acc frames @ (take 63 (drop off m) @ drop 63 (drop off m))"
      by (simp only: assemble_append assemble_chunk_report drop_drop add.commute append_assoc)
    also have "\<dots> = assemble acc frames @ drop off m"
      by (simp only: append_take_drop_id)
    finally show ?thesis by (simp only: chunk_loop_step [OF True])
  next
    case False
    then show ?thesis by (simp add: chunk_loop_done)
  qed
qed


lemma parse_chunked_layout:
  assumes n: "length pl < 65535"
    and asm: "assemble [] reports = PREAMBLE
          @ [word_of_nat (Suc (length pl) mod 256), word_of_nat (Suc (length pl) div 256)]
          @ (cmd # pl)
          @ [word_of_nat (unat (crc (cmd # pl)) mod 256),
             word_of_nat (unat (crc (cmd # pl)) div 256)]"
  shows "parse_chunked_frames crc reports = Inr (Some \<lparr>command = cmd, payload = pl\<rparr>)"
proof -
  let ?sz = "[word_of_nat (Suc (length pl) mod 256),
              word_of_nat (Suc (length pl) div 256)] :: bytes"
  let ?ck = "[word_of_nat (unat (crc (cmd # pl)) mod 256),
              word_of_nat (unat (crc (cmd # pl)) div 256)] :: bytes"
  let ?a = "PREAMBLE @ ?sz @ (cmd # pl) @ ?ck"
  have sz: "from_bytes_le ?sz = Suc (length pl)"
    using n by (intro from_bytes_le_pair) simp
  have ck: "from_bytes_le ?ck = unat (crc (cmd # pl))"
    by (intro from_bytes_le_pair unat_crc_bound)
  have s02: "pyslice ?a 0 2 = PREAMBLE" by (simp add: pyslice_def PREAMBLE_def)
  have s24: "pyslice ?a 2 4 = ?sz" by (simp add: pyslice_def PREAMBLE_def)
  have i4: "pyindex ?a 4 = Inr cmd" by (simp add: pyindex_def PREAMBLE_def)
  have pl: "pyslice ?a 5 (4 + Suc (length pl)) = pl"
    by (simp add: pyslice_def PREAMBLE_def)
  have body: "pyslice ?a 4 (4 + Suc (length pl)) = cmd # pl"
    by (simp add: pyslice_def PREAMBLE_def)
  have "drop (5 + length pl) ?a = ?ck"
    by (simp add: PREAMBLE_def drop_5_Cons)
  then have cks: "pyslice ?a (4 + Suc (length pl)) (4 + Suc (length pl) + 2) = ?ck"
    by (simp add: pyslice_def)
  have len: "\<not> length ?a < 7" by (simp add: PREAMBLE_def)
  show ?thesis
    unfolding parse_chunked_frames_def Let_def asm
    by (simp only: len s02 s24 sz pl body cks ck i4 if_False sum.case) simp
qed


lemma build_chunked_frames_small:
  assumes "length pl \<le> 56"
  shows "build_chunked_frames crc cmd pl =
           (case build_frame crc cmd pl of Inl e \<Rightarrow> Inl e | Inr r \<Rightarrow> Inr [r])"
  using assms unat_crc_bound [of "crc (cmd # pl)"]
  by (simp add: build_chunked_frames_def to_bytes2_def PREAMBLE_def HID_REPORT_SIZE_def Let_def)

lemma build_chunked_frames_large:
  assumes "56 < length pl" and "length pl < 65535"
  shows "build_chunked_frames crc cmd pl =
     Inr (chunk_loop (PREAMBLE
          @ [word_of_nat (Suc (length pl) mod 256), word_of_nat (Suc (length pl) div 256)]
          @ (cmd # pl)
          @ [word_of_nat (unat (crc (cmd # pl)) mod 256),
             word_of_nat (unat (crc (cmd # pl)) div 256)]) 0 [])"
  using assms unat_crc_bound [of "crc (cmd # pl)"]
  by (simp add: build_chunked_frames_def to_bytes2_def PREAMBLE_def HID_REPORT_SIZE_def Let_def)

lemma chunked_body_too_long:
  assumes "65535 \<le> length pl"
  shows "build_chunked_frames crc cmd pl = Inl OverflowError"
  using assms by (simp add: build_chunked_frames_def to_bytes2_def Let_def)

lemma chunked_large_returns:
  assumes "63 < length pl + 7 \<and> 1 + length pl \<le> 65535"
  shows "\<exists>rs. build_chunked_frames crc cmd pl = Inr rs \<and> 1 < length rs
            \<and> (\<forall>r \<in> set rs. length r = 64)
            \<and> parse_chunked_frames crc rs = Inr (Some \<lparr>command = cmd, payload = pl\<rparr>)"
proof -
  from assms have big: "56 < length pl" and n: "length pl < 65535" by simp_all
  let ?full = "PREAMBLE
          @ [word_of_nat (Suc (length pl) mod 256), word_of_nat (Suc (length pl) div 256)]
          @ (cmd # pl)
          @ [word_of_nat (unat (crc (cmd # pl)) mod 256),
             word_of_nat (unat (crc (cmd # pl)) div 256)]"
  let ?rs = "chunk_loop ?full 0 []"
  have built: "build_chunked_frames crc cmd pl = Inr ?rs"
    by (rule build_chunked_frames_large [OF big n])
  have "length ?full = length pl + 7" by (simp add: PREAMBLE_def)
  then have "length ?rs = (length pl + 7 + 62) div 63"
    by (simp add: chunk_loop_length)
  moreover have "2 * 63 \<le> length pl + 7 + 62" using big by simp
  then have "2 \<le> (length pl + 7 + 62) div 63"
    by (simp only: less_eq_div_iff_mult_less_eq)
  ultimately have many: "1 < length ?rs" by simp
  have sizes: "\<forall>r \<in> set ?rs. length r = 64"
    by (rule chunk_loop_lengths) simp
  have "assemble [] ?rs = ?full"
    by (simp only: assemble_chunk_loop) simp
  then have parsed: "parse_chunked_frames crc ?rs = Inr (Some \<lparr>command = cmd, payload = pl\<rparr>)"
    by (rule parse_chunked_layout [OF n])
  show ?thesis
    using built many sizes parsed by blast
qed

text \<open>
  C3, as amended. When the encoded message (preamble, size, body and checksum:
  \<open>len(payload) + 7\<close> bytes) fits within 63 bytes, \<^verbatim>\<open>build_chunked_frames\<close> returns the
  one-element list of \<^verbatim>\<open>build_frame\<close>'s report. When it does not fit and the body
  (command and payload) has at most 65535 bytes, \<^verbatim>\<open>build_chunked_frames\<close> returns more than
  one report, each of exactly 64 bytes, and \<^verbatim>\<open>parse_chunked_frames\<close> on that list returns
  the frame with the command and the payload.
\<close>

theorem build_chunked_frames_roundtrip:
  "(length pl + 7 \<le> 63 \<longrightarrow>
      (\<exists>r. build_frame crc cmd pl = Inr r \<and> build_chunked_frames crc cmd pl = Inr [r]))
   \<and> (63 < length pl + 7 \<and> 1 + length pl \<le> 65535 \<longrightarrow>
      (\<exists>rs. build_chunked_frames crc cmd pl = Inr rs \<and> 1 < length rs
            \<and> (\<forall>r \<in> set rs. length r = 64)
            \<and> parse_chunked_frames crc rs = Inr (Some \<lparr>command = cmd, payload = pl\<rparr>)))"
proof (intro conjI impI)
  assume "length pl + 7 \<le> 63"
  then have le: "length pl \<le> 56" by simp
  show "\<exists>r. build_frame crc cmd pl = Inr r \<and> build_chunked_frames crc cmd pl = Inr [r]"
    unfolding build_chunked_frames_small [OF le] build_frame_small [OF le] by simp
next
  assume "63 < length pl + 7 \<and> 1 + length pl \<le> 65535"
  then show "\<exists>rs. build_chunked_frames crc cmd pl = Inr rs \<and> 1 < length rs
            \<and> (\<forall>r \<in> set rs. length r = 64)
            \<and> parse_chunked_frames crc rs = Inr (Some \<lparr>command = cmd, payload = pl\<rparr>)"
    by (rule chunked_large_returns)
qed

theorem build_chunked_frames_roundtrip_witness:
  "length [0x02 :: byte] + 7 \<le> 63
   \<and> (\<exists>r. build_frame crc_sample 0xA6 [0x02] = Inr r
          \<and> build_chunked_frames crc_sample 0xA6 [0x02] = Inr [r])
   \<and> 63 < length (replicate 200 (0x41 :: byte)) + 7
   \<and> 1 + length (replicate 200 (0x41 :: byte)) \<le> 65535
   \<and> (\<exists>rs. build_chunked_frames crc_sample 0x83 (replicate 200 0x41) = Inr rs \<and> 1 < length rs
          \<and> (\<forall>r \<in> set rs. length r = 64)
          \<and> parse_chunked_frames crc_sample rs
              = Inr (Some \<lparr>command = 0x83, payload = replicate 200 0x41\<rparr>))"
  using build_chunked_frames_roundtrip [of "[0x02]" crc_sample "0xA6"]
    build_chunked_frames_roundtrip [of "replicate 200 0x41" crc_sample "0x83"]
  by simp

theorem build_chunked_frames_overflow_counterexample:
  "build_chunked_frames crc_sample 0xA8 (replicate 65535 0) = Inl OverflowError"
  by (rule chunked_body_too_long) simp




section \<open>Response dispatch\<close>

lemma Command_of_member: "Command_of (Command_value c) = Inr c"
  by (cases c) (simp_all add: Command_of_def Command_members_def)

lemma Command_of_Inr: "Command_of x = Inr c \<Longrightarrow> Command_value c = x"
  by (auto simp add: Command_of_def split: option.splits dest: find_Some_iff [THEN iffD1])

lemma parse_response_known:
  "\<exists>r. parse_response \<lparr>command = Command_value c, payload = pl\<rparr> = Inr r"
  by (simp add: parse_response_def Command_of_member split: option.splits)

text \<open>
  C5. \<^verbatim>\<open>parse_response\<close> evaluates \<^verbatim>\<open>Command(frame.command)\<close> before it looks a parser
  up, and command byte \<open>0x00\<close> is the value of no member of \<^verbatim>\<open>Command\<close>: on the frame
  with that command and an empty payload it raises ValueError instead of returning the
  frame.
\<close>

theorem parse_response_unknown_command_raises:
  "parse_response \<lparr>command = 0x00, payload = []\<rparr> = Inl ValueError"
  by (simp add: parse_response_def Command_of_def Command_members_def)

section \<open>Command builders\<close>

lemma wire_message_length: "length (wire_message crc cmd pl) = length pl + 7"
  by (simp add: wire_message_def le16_def)

lemma build_frame_wire:
  assumes "length pl \<le> 56"
  shows "build_frame crc cmd pl = Inr (wire_report crc cmd pl)"
proof -
  have "56 - length pl = 63 - (length pl + 7)" by simp
  then show ?thesis
    unfolding build_frame_small [OF assms] wire_report_def Let_def wire_message_length
    by (simp add: wire_message_def le16_def PREAMBLE_def)
qed

lemma wire_report_parse:
  assumes "length pl \<le> 56"
  shows "length (wire_report crc cmd pl) = 64"
    and "parse_frame crc (wire_report crc cmd pl) = Inr (Some \<lparr>command = cmd, payload = pl\<rparr>)"
proof -
  show "length (wire_report crc cmd pl) = 64"
    using assms by (simp add: wire_report_def Let_def wire_message_length)
  have "unat (word_of_nat (length pl + 7) :: byte) = length pl + 7"
    using assms by (intro unat_byte_of_nat) simp
  then have h: "7 \<le> unat (word_of_nat (length pl + 7) :: byte)" by simp
  have n: "length pl < 65535" using assms by simp
  have "wire_report crc cmd pl =
          word_of_nat (length pl + 7) # PREAMBLE
          @ [word_of_nat (Suc (length pl) mod 256), word_of_nat (Suc (length pl) div 256)]
          @ (cmd # pl)
          @ [word_of_nat (unat (crc (cmd # pl)) mod 256),
             word_of_nat (unat (crc (cmd # pl)) div 256)]
          @ replicate (56 - length pl) 0"
    using build_frame_wire [OF assms, of crc cmd] build_frame_small [OF assms, of crc cmd]
    by simp
  then show "parse_frame crc (wire_report crc cmd pl)
               = Inr (Some \<lparr>command = cmd, payload = pl\<rparr>)"
    using parse_frame_layout [OF n h] by simp
qed

lemma bytes_of_ints_one:
  "0 \<le> n \<Longrightarrow> n \<le> 255 \<Longrightarrow> bytes_of_ints [n] = Inr [word_of_int n]"
  by (simp add: byte_of_int_def)

lemma bytes_of_ints_two:
  "0 \<le> m \<Longrightarrow> m \<le> 255 \<Longrightarrow> 0 \<le> n \<Longrightarrow> n \<le> 255 \<Longrightarrow>
   bytes_of_ints [m, n] = Inr [word_of_int m, word_of_int n]"
  by (simp add: byte_of_int_def)

lemma bytes_of_ints_bad_first:
  "\<not> (0 \<le> m \<and> m \<le> 255) \<Longrightarrow> bytes_of_ints (m # ms) = Inl ValueError"
  by (auto simp add: byte_of_int_def)

lemma MODULE_COMMAND_MAP_dom:
  "MODULE_COMMAND_MAP module = None \<longleftrightarrow>
   module \<notin> {''fx'', ''od'', ''amp'', ''cab'', ''ns'', ''eq'', ''mod'', ''delay'', ''reverb''}"
  by (simp add: MODULE_COMMAND_MAP_def)

lemma MODULE_COMMAND_MAP_ids:
  assumes "map_of module_ids module = Some code"
  shows "\<exists>c. MODULE_COMMAND_MAP module = Some c \<and> Command_value c = code"
proof -
  let ?assoc = "[(''fx'', FX), (''od'', DS_OD), (''amp'', AMP), (''cab'', CAB), (''ns'', NS_GATE),
             (''eq'', EQ), (''mod'', MOD), (''delay'', DELAY), (''reverb'', REVERB)]"
  have ids: "module_ids = map (\<lambda>(k, v). (k, Command_value v)) ?assoc"
    by (simp add: module_ids_def)
  have "map_of module_ids module = map_option Command_value (map_of ?assoc module)"
    by (subst ids) (simp only: map_of_map comp_apply)
  then have "map_option Command_value (MODULE_COMMAND_MAP module) = Some code"
    using assms by (simp only: MODULE_COMMAND_MAP_def)
  then show ?thesis by (cases "MODULE_COMMAND_MAP module") simp_all
qed

lemma assemble_concat:
  "\<forall>r \<in> set rs. r \<noteq> [] \<Longrightarrow> assemble acc rs = acc @ concat (map meaningful rs)"
proof (induction rs arbitrary: acc)
  case Nil
  then show ?case by simp
next
  case (Cons r rs)
  then have r: "r \<noteq> []" and rest: "\<forall>r \<in> set rs. r \<noteq> []" by simp_all
  have "pyslice r 1 (1 + unat (hd r)) = meaningful r"
    by (simp add: pyslice_def meaningful_def drop_Suc)
  then show ?case
    using r Cons.IH [OF rest] by (simp add: Let_def)
qed

lemma build_store_preset_returns:
  assumes slot: "0 \<le> slot" "slot \<le> 199" and len: "length d = 512"
  shows "\<exists>rs. build_store_preset crc slot d = Inr rs \<and> length rs = 9
              \<and> (\<forall>r \<in> set rs. length r = 64)
              \<and> concat (map meaningful rs) = wire_message crc 0xA8 (word_of_int slot # d)
              \<and> parse_chunked_frames crc rs
                  = Inr (Some \<lparr>command = 0xA8, payload = word_of_int slot # d\<rparr>)"
proof -
  let ?pl = "word_of_int slot # d :: bytes"
  let ?full = "PREAMBLE
          @ [word_of_nat (Suc (length ?pl) mod 256), word_of_nat (Suc (length ?pl) div 256)]
          @ (0xA8 # ?pl)
          @ [word_of_nat (unat (crc (0xA8 # ?pl)) mod 256),
             word_of_nat (unat (crc (0xA8 # ?pl)) div 256)]"
  let ?rs = "chunk_loop ?full 0 []"
  have b: "bytes_of_ints [slot] = Inr [word_of_int slot]"
    using slot by (intro bytes_of_ints_one) simp_all
  have big: "56 < length ?pl" and n: "length ?pl < 65535" using len by simp_all
  have built: "build_chunked_frames crc 0xA8 ?pl = Inr ?rs"
    by (rule build_chunked_frames_large [OF big n])
  have "build_store_preset crc slot d = build_chunked_frames crc 0xA8 ?pl"
    unfolding build_store_preset_def b using slot len by simp
  then have store: "build_store_preset crc slot d = Inr ?rs"
    by (simp only: built)
  have full: "?full = wire_message crc 0xA8 ?pl"
    by (simp add: wire_message_def le16_def PREAMBLE_def)
  have "length ?full = 520" using len by (simp add: PREAMBLE_def)
  then have count: "length ?rs = 9" by (simp add: chunk_loop_length)
  have "\<forall>r \<in> set ([] :: bytes list). length r = 64" by simp
  then have sizes: "\<forall>r \<in> set ?rs. length r = 64" by (rule chunk_loop_lengths)
  have "\<forall>r \<in> set ?rs. r \<noteq> []"
  proof (intro ballI)
    fix r
    assume "r \<in> set ?rs"
    with sizes have "length r = 64" by (rule bspec)
    then show "r \<noteq> []" by (cases r) simp_all
  qed
  then have "assemble [] ?rs = [] @ concat (map meaningful ?rs)" by (rule assemble_concat)
  then have "concat (map meaningful ?rs) = assemble [] ?rs" by (simp only: append_Nil)
  also have "\<dots> = [] @ drop 0 ?full" by (simp only: assemble_chunk_loop assemble.simps)
  also have "\<dots> = ?full" by (simp only: append_Nil drop_0)
  finally have cat: "concat (map meaningful ?rs) = wire_message crc 0xA8 ?pl"
    by (simp only: full)
  have "assemble [] ?rs = PREAMBLE
          @ [word_of_nat (Suc (length ?pl) mod 256), word_of_nat (Suc (length ?pl) div 256)]
          @ (0xA8 # ?pl)
          @ [word_of_nat (unat (crc (0xA8 # ?pl)) mod 256),
             word_of_nat (unat (crc (0xA8 # ?pl)) div 256)]"
    by (simp only: assemble_chunk_loop) simp
  then have parsed: "parse_chunked_frames crc ?rs
                       = Inr (Some \<lparr>command = 0xA8, payload = ?pl\<rparr>)"
    by (rule parse_chunked_layout [OF n])
  show ?thesis by (intro exI [of _ ?rs] conjI store count sizes cat parsed)
qed

text \<open>
  C8, as amended. Each builder returns ValueError, and so no report, on an out-of-range
  input: a slot outside \<open>[0,199]\<close> for \<^verbatim>\<open>build_select_preset\<close>, \<^verbatim>\<open>build_read_preset\<close> and
  \<^verbatim>\<open>build_store_preset\<close>; a volume outside \<open>[0,100]\<close> for \<^verbatim>\<open>build_set_volume\<close>; preset data
  whose length is not 512 for \<^verbatim>\<open>build_store_preset\<close>; a module name outside the nine known
  names, a value outside \<open>[0,255]\<close> or a parameter index outside \<open>[0,255]\<close> for
  \<^verbatim>\<open>build_effect_param\<close>. On in-range inputs each builder returns the encoded report: the
  64-byte wire report of its command identifier and payload, which \<^verbatim>\<open>parse_frame\<close> decodes
  to that command and payload; \<^verbatim>\<open>build_store_preset\<close> returns nine 64-byte reports whose
  meaningful bytes concatenate to the wire message of command \<open>0xA8\<close> and payload
  slot byte followed by the preset data, which \<^verbatim>\<open>parse_chunked_frames\<close> decodes.
\<close>

theorem builders_validate:
  "(\<not> (0 \<le> bad_slot \<and> bad_slot \<le> 199) \<longrightarrow>
      build_select_preset crc bad_slot = Inl ValueError
      \<and> build_read_preset crc bad_slot = Inl ValueError
      \<and> build_store_preset crc bad_slot any_data = Inl ValueError)
   \<and> (\<not> (0 \<le> bad_vol \<and> bad_vol \<le> 100) \<longrightarrow> build_set_volume crc bad_vol = Inl ValueError)
   \<and> (length bad_data \<noteq> 512 \<longrightarrow> build_store_preset crc any_slot bad_data = Inl ValueError)
   \<and> (bad_module \<notin> {''fx'', ''od'', ''amp'', ''cab'', ''ns'', ''eq'', ''mod'', ''delay'', ''reverb''}
        \<longrightarrow> build_effect_param crc bad_module any_index any_val = Inl ValueError)
   \<and> (\<not> (0 \<le> bad_val \<and> bad_val \<le> 255) \<longrightarrow>
        build_effect_param crc any_module any_index bad_val = Inl ValueError)
   \<and> (\<not> (0 \<le> bad_index \<and> bad_index \<le> 255) \<longrightarrow>
        build_effect_param crc some_module bad_index some_val = Inl ValueError)
   \<and> (0 \<le> slot \<and> slot \<le> 199 \<longrightarrow>
        (\<exists>r. build_select_preset crc slot = Inr r
             \<and> r = wire_report crc 0xA6 [word_of_int slot] \<and> length r = 64
             \<and> parse_frame crc r
                 = Inr (Some \<lparr>command = 0xA6, payload = [word_of_int slot]\<rparr>))
        \<and> (\<exists>r. build_read_preset crc slot = Inr r
             \<and> r = wire_report crc 0x83 [word_of_int slot] \<and> length r = 64
             \<and> parse_frame crc r
                 = Inr (Some \<lparr>command = 0x83, payload = [word_of_int slot]\<rparr>))
        \<and> (length d = 512 \<longrightarrow>
             (\<exists>rs. build_store_preset crc slot d = Inr rs \<and> length rs = 9
                   \<and> (\<forall>r \<in> set rs. length r = 64)
                   \<and> concat (map meaningful rs)
                       = wire_message crc 0xA8 (word_of_int slot # d)
                   \<and> parse_chunked_frames crc rs
                       = Inr (Some \<lparr>command = 0xA8, payload = word_of_int slot # d\<rparr>))))
   \<and> (0 \<le> vol \<and> vol \<le> 100 \<longrightarrow>
        (\<exists>r. build_set_volume crc vol = Inr r
             \<and> r = wire_report crc 0xA2 [word_of_int vol] \<and> length r = 64
             \<and> parse_frame crc r
                 = Inr (Some \<lparr>command = 0xA2, payload = [word_of_int vol]\<rparr>)))
   \<and> (map_of module_ids module = Some code
        \<and> 0 \<le> val \<and> val \<le> 255 \<and> 0 \<le> param_index \<and> param_index \<le> 255 \<longrightarrow>
        (\<exists>r. build_effect_param crc module param_index val = Inr r
             \<and> r = wire_report crc code [word_of_int param_index, word_of_int val]
             \<and> length r = 64
             \<and> parse_frame crc r
                 = Inr (Some \<lparr>command = code,
                               payload = [word_of_int param_index, word_of_int val]\<rparr>)))"
proof (intro conjI impI)
  assume "\<not> (0 \<le> bad_slot \<and> bad_slot \<le> 199)"
  then show "build_select_preset crc bad_slot = Inl ValueError"
    and "build_read_preset crc bad_slot = Inl ValueError"
    and "build_store_preset crc bad_slot any_data = Inl ValueError"
    by (simp_all add: build_select_preset_def build_read_preset_def build_store_preset_def)
next
  assume "\<not> (0 \<le> bad_vol \<and> bad_vol \<le> 100)"
  then show "build_set_volume crc bad_vol = Inl ValueError"
    by (simp add: build_set_volume_def)
next
  assume "length bad_data \<noteq> 512"
  then show "build_store_preset crc any_slot bad_data = Inl ValueError"
    by (simp add: build_store_preset_def)
next
  assume "bad_module \<notin> {''fx'', ''od'', ''amp'', ''cab'', ''ns'', ''eq'', ''mod'', ''delay'', ''reverb''}"
  then have "MODULE_COMMAND_MAP bad_module = None" by (simp add: MODULE_COMMAND_MAP_dom)
  then show "build_effect_param crc bad_module any_index any_val = Inl ValueError"
    by (simp add: build_effect_param_def)
next
  assume "\<not> (0 \<le> bad_val \<and> bad_val \<le> 255)"
  then show "build_effect_param crc any_module any_index bad_val = Inl ValueError"
    by (simp add: build_effect_param_def split: option.splits)
next
  assume "\<not> (0 \<le> bad_index \<and> bad_index \<le> 255)"
  then have "bytes_of_ints [bad_index, some_val] = Inl ValueError"
    by (rule bytes_of_ints_bad_first)
  then show "build_effect_param crc some_module bad_index some_val = Inl ValueError"
    unfolding build_effect_param_def by (simp split: option.splits)
next
  assume s: "0 \<le> slot \<and> slot \<le> 199"
  then have b: "bytes_of_ints [slot] = Inr [word_of_int slot]"
    by (intro bytes_of_ints_one) simp_all
  have le: "length [word_of_int slot :: byte] \<le> 56" by simp
  show "\<exists>r. build_select_preset crc slot = Inr r
             \<and> r = wire_report crc 0xA6 [word_of_int slot] \<and> length r = 64
             \<and> parse_frame crc r
                 = Inr (Some \<lparr>command = 0xA6, payload = [word_of_int slot]\<rparr>)"
    unfolding build_select_preset_def build_command_def b
    using s build_frame_wire [OF le, of crc "0xA6"] wire_report_parse [OF le, of crc "0xA6"]
    by simp
  show "\<exists>r. build_read_preset crc slot = Inr r
             \<and> r = wire_report crc 0x83 [word_of_int slot] \<and> length r = 64
             \<and> parse_frame crc r
                 = Inr (Some \<lparr>command = 0x83, payload = [word_of_int slot]\<rparr>)"
    unfolding build_read_preset_def build_command_def b
    using s build_frame_wire [OF le, of crc "0x83"] wire_report_parse [OF le, of crc "0x83"]
    by simp
  assume "length d = 512"
  then show "\<exists>rs. build_store_preset crc slot d = Inr rs \<and> length rs = 9
                   \<and> (\<forall>r \<in> set rs. length r = 64)
                   \<and> concat (map meaningful rs)
                       = wire_message crc 0xA8 (word_of_int slot # d)
                   \<and> parse_chunked_frames crc rs
                       = Inr (Some \<lparr>command = 0xA8, payload = word_of_int slot # d\<rparr>)"
    using s by (intro build_store_preset_returns) simp_all
next
  assume v: "0 \<le> vol \<and> vol \<le> 100"
  then have b: "bytes_of_ints [vol] = Inr [word_of_int vol]"
    by (intro bytes_of_ints_one) simp_all
  have le: "length [word_of_int vol :: byte] \<le> 56" by simp
  show "\<exists>r. build_set_volume crc vol = Inr r
             \<and> r = wire_report crc 0xA2 [word_of_int vol] \<and> length r = 64
             \<and> parse_frame crc r
                 = Inr (Some \<lparr>command = 0xA2, payload = [word_of_int vol]\<rparr>)"
    unfolding build_set_volume_def build_command_def b
    using v build_frame_wire [OF le, of crc "0xA2"] wire_report_parse [OF le, of crc "0xA2"]
    by simp
next
  assume a: "map_of module_ids module = Some code
        \<and> 0 \<le> val \<and> val \<le> 255 \<and> 0 \<le> param_index \<and> param_index \<le> 255"
  then obtain c where c: "MODULE_COMMAND_MAP module = Some c" "Command_value c = code"
    using MODULE_COMMAND_MAP_ids by blast
  have b: "bytes_of_ints [param_index, val] = Inr [word_of_int param_index, word_of_int val]"
    using a by (intro bytes_of_ints_two) simp_all
  have le: "length [word_of_int param_index :: byte, word_of_int val] \<le> 56" by simp
  show "\<exists>r. build_effect_param crc module param_index val = Inr r
             \<and> r = wire_report crc code [word_of_int param_index, word_of_int val]
             \<and> length r = 64
             \<and> parse_frame crc r
                 = Inr (Some \<lparr>command = code,
                               payload = [word_of_int param_index, word_of_int val]\<rparr>)"
    unfolding build_effect_param_def build_command_def b c(1)
    using a c(2) build_frame_wire [OF le, of crc code] wire_report_parse [OF le, of crc code]
    by simp
qed

theorem builders_validate_witness:
  "\<not> (0 \<le> (200 :: int) \<and> (200 :: int) \<le> 199)
   \<and> build_select_preset crc_sample 200 = Inl ValueError
   \<and> build_read_preset crc_sample 200 = Inl ValueError
   \<and> build_store_preset crc_sample 200 (replicate 512 0) = Inl ValueError
   \<and> \<not> (0 \<le> (101 :: int) \<and> (101 :: int) \<le> 100)
   \<and> build_set_volume crc_sample 101 = Inl ValueError
   \<and> length (replicate 100 (0 :: byte)) \<noteq> 512
   \<and> build_store_preset crc_sample 0 (replicate 100 0) = Inl ValueError
   \<and> ''unknown'' \<notin> {''fx'', ''od'', ''amp'', ''cab'', ''ns'', ''eq'', ''mod'', ''delay'', ''reverb''}
   \<and> build_effect_param crc_sample ''unknown'' 0 0 = Inl ValueError
   \<and> \<not> (0 \<le> (256 :: int) \<and> (256 :: int) \<le> 255)
   \<and> build_effect_param crc_sample ''amp'' 0 256 = Inl ValueError
   \<and> build_effect_param crc_sample ''amp'' 256 0 = Inl ValueError
   \<and> (0 \<le> (2 :: int) \<and> (2 :: int) \<le> 199)
   \<and> (\<exists>r. build_select_preset crc_sample 2 = Inr r
          \<and> r = wire_report crc_sample 0xA6 [2] \<and> length r = 64
          \<and> parse_frame crc_sample r = Inr (Some \<lparr>command = 0xA6, payload = [2]\<rparr>))
   \<and> (\<exists>r. build_read_preset crc_sample 2 = Inr r
          \<and> r = wire_report crc_sample 0x83 [2] \<and> length r = 64
          \<and> parse_frame crc_sample r = Inr (Some \<lparr>command = 0x83, payload = [2]\<rparr>))
   \<and> length (replicate 512 (0 :: byte)) = 512
   \<and> (\<exists>rs. build_store_preset crc_sample 2 (replicate 512 0) = Inr rs \<and> length rs = 9
          \<and> (\<forall>r \<in> set rs. length r = 64)
          \<and> concat (map meaningful rs) = wire_message crc_sample 0xA8 (2 # replicate 512 0)
          \<and> parse_chunked_frames crc_sample rs
              = Inr (Some \<lparr>command = 0xA8, payload = 2 # replicate 512 0\<rparr>))
   \<and> (0 \<le> (75 :: int) \<and> (75 :: int) \<le> 100)
   \<and> (\<exists>r. build_set_volume crc_sample 75 = Inr r
          \<and> r = wire_report crc_sample 0xA2 [75] \<and> length r = 64
          \<and> parse_frame crc_sample r = Inr (Some \<lparr>command = 0xA2, payload = [75]\<rparr>))
   \<and> map_of module_ids ''amp'' = Some 0x93
   \<and> (\<exists>r. build_effect_param crc_sample ''amp'' 3 128 = Inr r
          \<and> r = wire_report crc_sample 0x93 [3, 128] \<and> length r = 64
          \<and> parse_frame crc_sample r = Inr (Some \<lparr>command = 0x93, payload = [3, 128]\<rparr>))"
  using builders_validate [where bad_slot = 200 and crc = crc_sample
      and any_data = "replicate 512 0" and bad_vol = 101 and bad_data = "replicate 100 0"
      and any_slot = 0 and bad_module = "''unknown''" and any_index = 0 and any_val = 0
      and bad_val = 256 and any_module = "''amp''" and bad_index = 256
      and some_module = "''amp''" and some_val = 0 and slot = 2 and d = "replicate 512 0"
      and vol = 75 and module = "''amp''" and code = "0x93" and val = 128 and param_index = 3]
  by (simp add: module_ids_def)

theorem builders_param_index_counterexample:
  "build_effect_param crc_sample ''amp'' 256 0 = Inl ValueError"
  by (simp add: build_effect_param_def MODULE_COMMAND_MAP_def byte_of_int_def)


section \<open>Byte values\<close>

lemma uint_byte: "is_byte k \<Longrightarrow> uint (word_of_int k :: byte) = k"
  by (simp add: is_byte_def uint_word_of_int_eq take_bit_int_eq_self)

lemma bytes_of_ints_all: "list_all is_byte xs \<Longrightarrow> bytes_of_ints xs = Inr (map word_of_int xs)"
  by (induction xs) (simp_all add: byte_of_int_def is_byte_def)

lemma map_uint_bytes: "list_all is_byte xs \<Longrightarrow> map uint (map word_of_int xs :: bytes) = xs"
  by (induction xs) (simp_all add: uint_byte)

lemma and_255: "(t :: int) AND 0xFF = t mod 256"
proof -
  have "mask 8 = (255 :: int)" by (simp add: mask_eq_exp_minus_1)
  then have "t AND 255 = take_bit 8 t" by (simp add: take_bit_eq_mask)
  then show ?thesis by (simp add: take_bit_eq_mod)
qed

lemma is_byte_and_255: "is_byte ((t :: int) AND 0xFF)"
  by (simp add: and_255 is_byte_def)

lemma time_ms_split:
  assumes "0 \<le> t" "t \<le> 65535"
  shows "uint (word_of_int (t AND 0xFF) :: byte)
           OR push_bit 8 (uint (word_of_int (drop_bit 8 t AND 0xFF) :: byte)) = (t :: int)"
proof -
  have lo: "uint (word_of_int (t AND 0xFF) :: byte) = take_bit 8 t"
    by (simp add: uint_byte is_byte_and_255) (simp add: and_255 take_bit_eq_mod)
  have "drop_bit 8 t = t div 256" by (simp add: drop_bit_eq_div)
  moreover have "t div 256 < 256" using assms by simp
  moreover have "0 \<le> t div 256" using assms by simp
  ultimately have eq: "drop_bit 8 t AND 0xFF = drop_bit 8 t"
    by (simp add: and_255)
  have "uint (word_of_int (drop_bit 8 t AND 0xFF) :: byte) = drop_bit 8 t AND 0xFF"
    by (rule uint_byte) (rule is_byte_and_255)
  then have hi: "uint (word_of_int (drop_bit 8 t AND 0xFF) :: byte) = drop_bit 8 t"
    by (simp only: eq)
  have "take_bit 8 t OR push_bit 8 (drop_bit 8 t) = take_bit 8 t + push_bit 8 (drop_bit 8 t)"
    by (rule disjunctive_add [symmetric]) (simp add: bit_simps)
  also have "\<dots> = t" using bits_ident [of 8 t] by (simp only: add.commute [of "take_bit 8 t"])
  finally show ?thesis by (simp only: lo hi)
qed

lemma effect_order_byte: "is_byte v \<Longrightarrow> uint (word_of_int (v AND 0xFF) :: byte) = v"
  by (simp add: and_255 is_byte_def uint_word_of_int_eq take_bit_int_eq_self)

section \<open>Slice assignment\<close>

lemma length_pyslice_assign:
  "length d = n \<Longrightarrow> a + n \<le> length buf \<Longrightarrow> length (pyslice_assign buf a (a + n) d) = length buf"
  by (simp add: pyslice_assign_def)

lemma pyslice_assign_same:
  "length d = n \<Longrightarrow> a \<le> length buf \<Longrightarrow> pyslice (pyslice_assign buf a (a + n) d) a (a + n) = d"
  by (simp add: pyslice_assign_def pyslice_def)

lemma pyslice_append_left: "e \<le> length xs \<Longrightarrow> pyslice (xs @ ys) c e = pyslice xs c e"
  by (simp add: pyslice_def)

lemma pyslice_take:
  assumes "e \<le> a"
  shows "pyslice (take a buf) c e = pyslice buf c e"
proof (cases "c \<le> e")
  case True
  have "take (e - c) (drop c (take a buf)) = drop c (take (e - c + c) (take a buf))"
    by (simp only: take_drop)
  also have "\<dots> = drop c (take e buf)" using True assms by (simp add: min_def)
  also have "\<dots> = take (e - c) (drop c buf)" using True by (simp add: take_drop)
  finally show ?thesis by (simp only: pyslice_def)
next
  case False
  then show ?thesis by (simp add: pyslice_def)
qed

lemma pyslice_assign_before:
  assumes "e \<le> a" "a \<le> length buf"
  shows "pyslice (pyslice_assign buf a b d) c e = pyslice buf c e"
proof -
  have "e \<le> length (take a buf)" using assms by simp
  then have "pyslice (take a buf @ d @ drop (max a b) buf) c e = pyslice (take a buf) c e"
    by (rule pyslice_append_left)
  then show ?thesis using assms(1) by (simp only: pyslice_assign_def pyslice_take)
qed

lemma pyslice_assign_after:
  assumes "length d = n" "a + n \<le> c" "a + n \<le> length buf"
  shows "pyslice (pyslice_assign buf a (a + n) d) c e = pyslice buf c e"
proof -
  have "drop c (take a buf @ d @ drop (a + n) buf) = drop (c - (a + n)) (drop (a + n) buf)"
    using assms by simp
  also have "\<dots> = drop c buf" using assms by simp
  finally show ?thesis by (simp add: pyslice_assign_def pyslice_def)
qed

lemma pyslice_assign_prefix:
  assumes "length d = n" "a + n \<le> e" "a + n \<le> length buf"
  shows "pyslice (pyslice_assign buf a (a + n) d) a e = d @ pyslice buf (a + n) e"
  using assms by (simp add: pyslice_assign_def pyslice_def)

lemma pyslice_replicate: "e \<le> n \<Longrightarrow> pyslice (replicate n x) c e = replicate (e - c) x"
  by (simp add: pyslice_def)

lemma list_update_as_slice:
  "i < length buf \<Longrightarrow> buf[i := v] = pyslice_assign buf i (i + 1) [v]"
  by (simp add: pyslice_assign_def upd_conv_take_nth_drop)

section \<open>Effect modules\<close>

lemma FXModule_to_bytes_encodable:
  assumes "encodable_FXModule m"
  shows "FXModule_to_bytes m =
           Inr (map word_of_int [header m, enabled m, type m, q m, position m, peak m, FXModule.level m]
                @ take 6 (FXModule.reserved m))"
proof -
  have "list_all is_byte [header m, enabled m, type m, q m, position m, peak m, FXModule.level m]"
    using assms by (simp add: encodable_FXModule_def)
  then show ?thesis
    by (simp only: FXModule_to_bytes_def pyslice_def bytes_of_ints_all sum.case
        diff_zero drop_0 Let_def)
qed

lemma FXModule_to_bytes_length:
  assumes "encodable_FXModule m"
  shows "\<exists>b. FXModule_to_bytes m = Inr b \<and> length b = 13"
  unfolding FXModule_to_bytes_encodable [OF assms]
  using assms by (simp add: encodable_FXModule_def)

lemma FXModule_roundtrip:
  assumes "valid_FXModule m" and "FXModule_to_bytes m = Inr b"
  shows "FXModule_from_bytes b = m"
proof -
  have enc: "encodable_FXModule m" using assms(1) by (simp add: valid_FXModule_def)
  have lens: "length (FXModule.reserved m) = 6"
    using assms(1) by (simp add: valid_FXModule_def)
  have bytes: "is_byte (header m)" "is_byte (enabled m)" "is_byte (type m)" "is_byte (q m)" "is_byte (position m)" "is_byte (peak m)" "is_byte (FXModule.level m)"
    using enc by (simp_all add: encodable_FXModule_def)
  have b: "b = word_of_int (header m) # word_of_int (enabled m) # word_of_int (type m) # word_of_int (q m) # word_of_int (position m) # word_of_int (peak m) # word_of_int (FXModule.level m)
             # FXModule.reserved m"
    using assms(2) lens unfolding FXModule_to_bytes_encodable [OF enc] by simp
  have len: "length b = 13" unfolding b using lens by simp
  have s: "pyslice b 7 13 = FXModule.reserved m"
    unfolding b using lens by (simp add: pyslice_def)
  have n: "b ! 0 = word_of_int (header m)" "b ! Suc 0 = word_of_int (enabled m)" "b ! 2 = word_of_int (type m)" "b ! 3 = word_of_int (q m)" "b ! 4 = word_of_int (position m)" "b ! 5 = word_of_int (peak m)" "b ! 6 = word_of_int (FXModule.level m)"
    unfolding b by simp_all
  show ?thesis
    using len bytes
    by (simp add: FXModule_from_bytes_def pad_to_def FXModule_SIZE_def Let_def
        s n uint_byte)
qed

lemma DistortionModule_to_bytes_encodable:
  assumes "encodable_DistortionModule m"
  shows "DistortionModule_to_bytes m =
           Inr (map word_of_int [header m, enabled m, type m, volume m, DistortionModule.tone m, gain m]
                @ take 5 (DistortionModule.reserved m))"
proof -
  have "list_all is_byte [header m, enabled m, type m, volume m, DistortionModule.tone m, gain m]"
    using assms by (simp add: encodable_DistortionModule_def)
  then show ?thesis
    by (simp only: DistortionModule_to_bytes_def pyslice_def bytes_of_ints_all sum.case
        diff_zero drop_0 Let_def)
qed

lemma DistortionModule_to_bytes_length:
  assumes "encodable_DistortionModule m"
  shows "\<exists>b. DistortionModule_to_bytes m = Inr b \<and> length b = 11"
  unfolding DistortionModule_to_bytes_encodable [OF assms]
  using assms by (simp add: encodable_DistortionModule_def)

lemma DistortionModule_roundtrip:
  assumes "valid_DistortionModule m" and "DistortionModule_to_bytes m = Inr b"
  shows "DistortionModule_from_bytes b = m"
proof -
  have enc: "encodable_DistortionModule m" using assms(1) by (simp add: valid_DistortionModule_def)
  have lens: "length (DistortionModule.reserved m) = 5"
    using assms(1) by (simp add: valid_DistortionModule_def)
  have bytes: "is_byte (header m)" "is_byte (enabled m)" "is_byte (type m)" "is_byte (volume m)" "is_byte (DistortionModule.tone m)" "is_byte (gain m)"
    using enc by (simp_all add: encodable_DistortionModule_def)
  have b: "b = word_of_int (header m) # word_of_int (enabled m) # word_of_int (type m) # word_of_int (volume m) # word_of_int (DistortionModule.tone m) # word_of_int (gain m)
             # DistortionModule.reserved m"
    using assms(2) lens unfolding DistortionModule_to_bytes_encodable [OF enc] by simp
  have len: "length b = 11" unfolding b using lens by simp
  have s: "pyslice b 6 11 = DistortionModule.reserved m"
    unfolding b using lens by (simp add: pyslice_def)
  have n: "b ! 0 = word_of_int (header m)" "b ! Suc 0 = word_of_int (enabled m)" "b ! 2 = word_of_int (type m)" "b ! 3 = word_of_int (volume m)" "b ! 4 = word_of_int (DistortionModule.tone m)" "b ! 5 = word_of_int (gain m)"
    unfolding b by simp_all
  show ?thesis
    using len bytes
    by (simp add: DistortionModule_from_bytes_def pad_to_def DistortionModule_SIZE_def Let_def
        s n uint_byte)
qed

lemma AmpModule_to_bytes_encodable:
  assumes "encodable_AmpModule m"
  shows "AmpModule_to_bytes m =
           Inr (map word_of_int [header m, enabled m, type m, amp_gain m, bass m, mid m, treble m, presence m, master m]
                @ take 8 (AmpModule.reserved m))"
proof -
  have "list_all is_byte [header m, enabled m, type m, amp_gain m, bass m, mid m, treble m, presence m, master m]"
    using assms by (simp add: encodable_AmpModule_def)
  then show ?thesis
    by (simp only: AmpModule_to_bytes_def pyslice_def bytes_of_ints_all sum.case
        diff_zero drop_0 Let_def)
qed

lemma AmpModule_to_bytes_length:
  assumes "encodable_AmpModule m"
  shows "\<exists>b. AmpModule_to_bytes m = Inr b \<and> length b = 17"
  unfolding AmpModule_to_bytes_encodable [OF assms]
  using assms by (simp add: encodable_AmpModule_def)

lemma AmpModule_roundtrip:
  assumes "valid_AmpModule m" and "AmpModule_to_bytes m = Inr b"
  shows "AmpModule_from_bytes b = m"
proof -
  have enc: "encodable_AmpModule m" using assms(1) by (simp add: valid_AmpModule_def)
  have lens: "length (AmpModule.reserved m) = 8"
    using assms(1) by (simp add: valid_AmpModule_def)
  have bytes: "is_byte (header m)" "is_byte (enabled m)" "is_byte (type m)" "is_byte (amp_gain m)" "is_byte (bass m)" "is_byte (mid m)" "is_byte (treble m)" "is_byte (presence m)" "is_byte (master m)"
    using enc by (simp_all add: encodable_AmpModule_def)
  have b: "b = word_of_int (header m) # word_of_int (enabled m) # word_of_int (type m) # word_of_int (amp_gain m) # word_of_int (bass m) # word_of_int (mid m) # word_of_int (treble m) # word_of_int (presence m) # word_of_int (master m)
             # AmpModule.reserved m"
    using assms(2) lens unfolding AmpModule_to_bytes_encodable [OF enc] by simp
  have len: "length b = 17" unfolding b using lens by simp
  have s: "pyslice b 9 17 = AmpModule.reserved m"
    unfolding b using lens by (simp add: pyslice_def)
  have n: "b ! 0 = word_of_int (header m)" "b ! Suc 0 = word_of_int (enabled m)" "b ! 2 = word_of_int (type m)" "b ! 3 = word_of_int (amp_gain m)" "b ! 4 = word_of_int (bass m)" "b ! 5 = word_of_int (mid m)" "b ! 6 = word_of_int (treble m)" "b ! 7 = word_of_int (presence m)" "b ! 8 = word_of_int (master m)"
    unfolding b by simp_all
  show ?thesis
    using len bytes
    by (simp add: AmpModule_from_bytes_def pad_to_def AmpModule_SIZE_def Let_def
        s n uint_byte)
qed

lemma CabModule_to_bytes_encodable:
  assumes "encodable_CabModule m"
  shows "CabModule_to_bytes m =
           Inr (map word_of_int [header m, enabled m, type m, mic m, center m, distance m, tube m]
                @ take 6 (CabModule.reserved m))"
proof -
  have "list_all is_byte [header m, enabled m, type m, mic m, center m, distance m, tube m]"
    using assms by (simp add: encodable_CabModule_def)
  then show ?thesis
    by (simp only: CabModule_to_bytes_def pyslice_def bytes_of_ints_all sum.case
        diff_zero drop_0 Let_def)
qed

lemma CabModule_to_bytes_length:
  assumes "encodable_CabModule m"
  shows "\<exists>b. CabModule_to_bytes m = Inr b \<and> length b = 13"
  unfolding CabModule_to_bytes_encodable [OF assms]
  using assms by (simp add: encodable_CabModule_def)

lemma CabModule_roundtrip:
  assumes "valid_CabModule m" and "CabModule_to_bytes m = Inr b"
  shows "CabModule_from_bytes b = m"
proof -
  have enc: "encodable_CabModule m" using assms(1) by (simp add: valid_CabModule_def)
  have lens: "length (CabModule.reserved m) = 6"
    using assms(1) by (simp add: valid_CabModule_def)
  have bytes: "is_byte (header m)" "is_byte (enabled m)" "is_byte (type m)" "is_byte (mic m)" "is_byte (center m)" "is_byte (distance m)" "is_byte (tube m)"
    using enc by (simp_all add: encodable_CabModule_def)
  have b: "b = word_of_int (header m) # word_of_int (enabled m) # word_of_int (type m) # word_of_int (mic m) # word_of_int (center m) # word_of_int (distance m) # word_of_int (tube m)
             # CabModule.reserved m"
    using assms(2) lens unfolding CabModule_to_bytes_encodable [OF enc] by simp
  have len: "length b = 13" unfolding b using lens by simp
  have s: "pyslice b 7 13 = CabModule.reserved m"
    unfolding b using lens by (simp add: pyslice_def)
  have n: "b ! 0 = word_of_int (header m)" "b ! Suc 0 = word_of_int (enabled m)" "b ! 2 = word_of_int (type m)" "b ! 3 = word_of_int (mic m)" "b ! 4 = word_of_int (center m)" "b ! 5 = word_of_int (distance m)" "b ! 6 = word_of_int (tube m)"
    unfolding b by simp_all
  show ?thesis
    using len bytes
    by (simp add: CabModule_from_bytes_def pad_to_def CabModule_SIZE_def Let_def
        s n uint_byte)
qed

lemma NoiseGateModule_to_bytes_encodable:
  assumes "encodable_NoiseGateModule m"
  shows "NoiseGateModule_to_bytes m =
           Inr (map word_of_int [header m, enabled m, type m, attack m, release m, threshold m]
                @ take 5 (NoiseGateModule.reserved m))"
proof -
  have "list_all is_byte [header m, enabled m, type m, attack m, release m, threshold m]"
    using assms by (simp add: encodable_NoiseGateModule_def)
  then show ?thesis
    by (simp only: NoiseGateModule_to_bytes_def pyslice_def bytes_of_ints_all sum.case
        diff_zero drop_0 Let_def)
qed

lemma NoiseGateModule_to_bytes_length:
  assumes "encodable_NoiseGateModule m"
  shows "\<exists>b. NoiseGateModule_to_bytes m = Inr b \<and> length b = 11"
  unfolding NoiseGateModule_to_bytes_encodable [OF assms]
  using assms by (simp add: encodable_NoiseGateModule_def)

lemma NoiseGateModule_roundtrip:
  assumes "valid_NoiseGateModule m" and "NoiseGateModule_to_bytes m = Inr b"
  shows "NoiseGateModule_from_bytes b = m"
proof -
  have enc: "encodable_NoiseGateModule m" using assms(1) by (simp add: valid_NoiseGateModule_def)
  have lens: "length (NoiseGateModule.reserved m) = 5"
    using assms(1) by (simp add: valid_NoiseGateModule_def)
  have bytes: "is_byte (header m)" "is_byte (enabled m)" "is_byte (type m)" "is_byte (attack m)" "is_byte (release m)" "is_byte (threshold m)"
    using enc by (simp_all add: encodable_NoiseGateModule_def)
  have b: "b = word_of_int (header m) # word_of_int (enabled m) # word_of_int (type m) # word_of_int (attack m) # word_of_int (release m) # word_of_int (threshold m)
             # NoiseGateModule.reserved m"
    using assms(2) lens unfolding NoiseGateModule_to_bytes_encodable [OF enc] by simp
  have len: "length b = 11" unfolding b using lens by simp
  have s: "pyslice b 6 11 = NoiseGateModule.reserved m"
    unfolding b using lens by (simp add: pyslice_def)
  have n: "b ! 0 = word_of_int (header m)" "b ! Suc 0 = word_of_int (enabled m)" "b ! 2 = word_of_int (type m)" "b ! 3 = word_of_int (attack m)" "b ! 4 = word_of_int (release m)" "b ! 5 = word_of_int (threshold m)"
    unfolding b by simp_all
  show ?thesis
    using len bytes
    by (simp add: NoiseGateModule_from_bytes_def pad_to_def NoiseGateModule_SIZE_def Let_def
        s n uint_byte)
qed

lemma EQModule_to_bytes_encodable:
  assumes "encodable_EQModule m"
  shows "EQModule_to_bytes m =
           Inr (map word_of_int ([header m, enabled m, type m]
                  @ take 6 (bands m) @ take 6 (bands_extra m))
                @ take 8 (EQModule.reserved m))"
proof -
  have "list_all is_byte ([header m, enabled m, type m]
          @ take 6 (bands m) @ take 6 (bands_extra m))"
    using assms by (simp add: encodable_EQModule_def)
  then show ?thesis
    by (simp only: EQModule_to_bytes_def pyslice_def bytes_of_ints_all sum.case
        diff_zero drop_0)
qed

lemma EQModule_to_bytes_length:
  assumes "encodable_EQModule m"
  shows "\<exists>b. EQModule_to_bytes m = Inr b \<and> length b = 23"
  unfolding EQModule_to_bytes_encodable [OF assms]
  using assms by (simp add: encodable_EQModule_def)

lemma EQModule_roundtrip:
  assumes "valid_EQModule m" and "EQModule_to_bytes m = Inr b"
  shows "EQModule_from_bytes b = m"
proof -
  have enc: "encodable_EQModule m" using assms(1) by (simp add: valid_EQModule_def)
  have lens: "length (bands m) = 6" "length (bands_extra m) = 6"
    "length (EQModule.reserved m) = 8"
    using assms(1) by (simp_all add: valid_EQModule_def)
  have bytes: "is_byte (header m)" "is_byte (enabled m)" "is_byte (type m)"
    "list_all is_byte (bands m)" "list_all is_byte (bands_extra m)"
    using enc lens by (simp_all add: encodable_EQModule_def)
  have b: "b = word_of_int (header m) # word_of_int (enabled m) # word_of_int (type m)
             # map word_of_int (bands m) @ map word_of_int (bands_extra m)
             @ EQModule.reserved m"
    using assms(2) lens unfolding EQModule_to_bytes_encodable [OF enc] by simp
  have len: "length b = 23" unfolding b using lens by simp
  have "pyslice b 3 9 = map word_of_int (bands m)"
    unfolding b using lens by (simp add: pyslice_def)
  then have s1: "map uint (pyslice b 3 9) = bands m"
    using bytes by (simp only: map_uint_bytes)
  have "pyslice b 9 15 = map word_of_int (bands_extra m)"
    unfolding b using lens by (simp add: pyslice_def)
  then have s2: "map uint (pyslice b 9 15) = bands_extra m"
    using bytes by (simp only: map_uint_bytes)
  have s3: "pyslice b 15 23 = EQModule.reserved m"
    unfolding b using lens by (simp add: pyslice_def)
  have n: "b ! 0 = word_of_int (header m)" "b ! Suc 0 = word_of_int (enabled m)"
    "b ! 2 = word_of_int (type m)"
    unfolding b by simp_all
  show ?thesis
    using len bytes
    by (simp add: EQModule_from_bytes_def pad_to_def EQModule_SIZE_def Let_def
        s1 s2 s3 n uint_byte map_uint_bytes)
qed

lemma ModulationModule_to_bytes_encodable:
  assumes "encodable_ModulationModule m"
  shows "ModulationModule_to_bytes m =
           Inr (map word_of_int [header m, enabled m, type m, rate m, ModulationModule.level m, depth m, param4 m, ModulationModule.param5 m]
                @ take 7 (ModulationModule.reserved m))"
proof -
  have "list_all is_byte [header m, enabled m, type m, rate m, ModulationModule.level m, depth m, param4 m, ModulationModule.param5 m]"
    using assms by (simp add: encodable_ModulationModule_def)
  then show ?thesis
    by (simp only: ModulationModule_to_bytes_def pyslice_def bytes_of_ints_all sum.case
        diff_zero drop_0 Let_def)
qed

lemma ModulationModule_to_bytes_length:
  assumes "encodable_ModulationModule m"
  shows "\<exists>b. ModulationModule_to_bytes m = Inr b \<and> length b = 15"
  unfolding ModulationModule_to_bytes_encodable [OF assms]
  using assms by (simp add: encodable_ModulationModule_def)

lemma ModulationModule_roundtrip:
  assumes "valid_ModulationModule m" and "ModulationModule_to_bytes m = Inr b"
  shows "ModulationModule_from_bytes b = m"
proof -
  have enc: "encodable_ModulationModule m" using assms(1) by (simp add: valid_ModulationModule_def)
  have lens: "length (ModulationModule.reserved m) = 7"
    using assms(1) by (simp add: valid_ModulationModule_def)
  have bytes: "is_byte (header m)" "is_byte (enabled m)" "is_byte (type m)" "is_byte (rate m)" "is_byte (ModulationModule.level m)" "is_byte (depth m)" "is_byte (param4 m)" "is_byte (ModulationModule.param5 m)"
    using enc by (simp_all add: encodable_ModulationModule_def)
  have b: "b = word_of_int (header m) # word_of_int (enabled m) # word_of_int (type m) # word_of_int (rate m) # word_of_int (ModulationModule.level m) # word_of_int (depth m) # word_of_int (param4 m) # word_of_int (ModulationModule.param5 m)
             # ModulationModule.reserved m"
    using assms(2) lens unfolding ModulationModule_to_bytes_encodable [OF enc] by simp
  have len: "length b = 15" unfolding b using lens by simp
  have s: "pyslice b 8 15 = ModulationModule.reserved m"
    unfolding b using lens by (simp add: pyslice_def)
  have n: "b ! 0 = word_of_int (header m)" "b ! Suc 0 = word_of_int (enabled m)" "b ! 2 = word_of_int (type m)" "b ! 3 = word_of_int (rate m)" "b ! 4 = word_of_int (ModulationModule.level m)" "b ! 5 = word_of_int (depth m)" "b ! 6 = word_of_int (param4 m)" "b ! 7 = word_of_int (ModulationModule.param5 m)"
    unfolding b by simp_all
  show ?thesis
    using len bytes
    by (simp add: ModulationModule_from_bytes_def pad_to_def ModulationModule_SIZE_def Let_def
        s n uint_byte)
qed

lemma DelayModule_to_bytes_encodable:
  assumes "encodable_DelayModule m"
  shows "DelayModule_to_bytes m =
           Inr (map word_of_int [header m, enabled m, type m, DelayModule.level m, feedback m, time_ms m AND 0xFF, drop_bit 8 (time_ms m) AND 0xFF, subdivision m, DelayModule.param5 m, param6 m]
                @ take 7 (DelayModule.reserved m))"
proof -
  have "list_all is_byte [header m, enabled m, type m, DelayModule.level m, feedback m, time_ms m AND 0xFF, drop_bit 8 (time_ms m) AND 0xFF, subdivision m, DelayModule.param5 m, param6 m]"
    using assms by (simp add: encodable_DelayModule_def is_byte_and_255)
  then show ?thesis
    by (simp only: DelayModule_to_bytes_def pyslice_def bytes_of_ints_all sum.case
        diff_zero drop_0 Let_def)
qed

lemma DelayModule_to_bytes_length:
  assumes "encodable_DelayModule m"
  shows "\<exists>b. DelayModule_to_bytes m = Inr b \<and> length b = 17"
  unfolding DelayModule_to_bytes_encodable [OF assms]
  using assms by (simp add: encodable_DelayModule_def)

lemma DelayModule_roundtrip:
  assumes "valid_DelayModule m" and "DelayModule_to_bytes m = Inr b"
  shows "DelayModule_from_bytes b = m"
proof -
  have enc: "encodable_DelayModule m" using assms(1) by (simp add: valid_DelayModule_def)
  have lens: "length (DelayModule.reserved m) = 7"
    using assms(1) by (simp add: valid_DelayModule_def)
  have bytes: "is_byte (header m)" "is_byte (enabled m)" "is_byte (type m)" "is_byte (DelayModule.level m)" "is_byte (feedback m)" "is_byte (subdivision m)" "is_byte (DelayModule.param5 m)" "is_byte (param6 m)"
    using enc by (simp_all add: encodable_DelayModule_def)
  have b: "b = word_of_int (header m) # word_of_int (enabled m) # word_of_int (type m) # word_of_int (DelayModule.level m) # word_of_int (feedback m) # word_of_int (time_ms m AND 0xFF) # word_of_int (drop_bit 8 (time_ms m) AND 0xFF) # word_of_int (subdivision m) # word_of_int (DelayModule.param5 m) # word_of_int (param6 m)
             # DelayModule.reserved m"
    using assms(2) lens unfolding DelayModule_to_bytes_encodable [OF enc] by simp
  have len: "length b = 17" unfolding b using lens by simp
  have s: "pyslice b 10 17 = DelayModule.reserved m"
    unfolding b using lens by (simp add: pyslice_def)
  have n: "b ! 0 = word_of_int (header m)" "b ! Suc 0 = word_of_int (enabled m)" "b ! 2 = word_of_int (type m)" "b ! 3 = word_of_int (DelayModule.level m)" "b ! 4 = word_of_int (feedback m)" "b ! 5 = word_of_int (time_ms m AND 0xFF)" "b ! 6 = word_of_int (drop_bit 8 (time_ms m) AND 0xFF)" "b ! 7 = word_of_int (subdivision m)" "b ! 8 = word_of_int (DelayModule.param5 m)" "b ! 9 = word_of_int (param6 m)"
    unfolding b by simp_all
  have t: "uint (word_of_int (time_ms m AND 0xFF) :: byte)
             OR push_bit 8 (uint (word_of_int (drop_bit 8 (time_ms m) AND 0xFF) :: byte))
           = time_ms m"
    using assms(1) by (intro time_ms_split) (simp_all add: valid_DelayModule_def)
  show ?thesis
    using len bytes
    by (simp add: DelayModule_from_bytes_def pad_to_def DelayModule_SIZE_def Let_def
        s n t uint_byte)
qed

lemma ReverbModule_to_bytes_encodable:
  assumes "encodable_ReverbModule m"
  shows "ReverbModule_to_bytes m =
           Inr (map word_of_int [header m, enabled m, type m, pre_delay m, ReverbModule.level m, decay m, ReverbModule.tone m]
                @ take 6 (ReverbModule.reserved m))"
proof -
  have "list_all is_byte [header m, enabled m, type m, pre_delay m, ReverbModule.level m, decay m, ReverbModule.tone m]"
    using assms by (simp add: encodable_ReverbModule_def)
  then show ?thesis
    by (simp only: ReverbModule_to_bytes_def pyslice_def bytes_of_ints_all sum.case
        diff_zero drop_0 Let_def)
qed

lemma ReverbModule_to_bytes_length:
  assumes "encodable_ReverbModule m"
  shows "\<exists>b. ReverbModule_to_bytes m = Inr b \<and> length b = 13"
  unfolding ReverbModule_to_bytes_encodable [OF assms]
  using assms by (simp add: encodable_ReverbModule_def)

lemma ReverbModule_roundtrip:
  assumes "valid_ReverbModule m" and "ReverbModule_to_bytes m = Inr b"
  shows "ReverbModule_from_bytes b = m"
proof -
  have enc: "encodable_ReverbModule m" using assms(1) by (simp add: valid_ReverbModule_def)
  have lens: "length (ReverbModule.reserved m) = 6"
    using assms(1) by (simp add: valid_ReverbModule_def)
  have bytes: "is_byte (header m)" "is_byte (enabled m)" "is_byte (type m)" "is_byte (pre_delay m)" "is_byte (ReverbModule.level m)" "is_byte (decay m)" "is_byte (ReverbModule.tone m)"
    using enc by (simp_all add: encodable_ReverbModule_def)
  have b: "b = word_of_int (header m) # word_of_int (enabled m) # word_of_int (type m) # word_of_int (pre_delay m) # word_of_int (ReverbModule.level m) # word_of_int (decay m) # word_of_int (ReverbModule.tone m)
             # ReverbModule.reserved m"
    using assms(2) lens unfolding ReverbModule_to_bytes_encodable [OF enc] by simp
  have len: "length b = 13" unfolding b using lens by simp
  have s: "pyslice b 7 13 = ReverbModule.reserved m"
    unfolding b using lens by (simp add: pyslice_def)
  have n: "b ! 0 = word_of_int (header m)" "b ! Suc 0 = word_of_int (enabled m)" "b ! 2 = word_of_int (type m)" "b ! 3 = word_of_int (pre_delay m)" "b ! 4 = word_of_int (ReverbModule.level m)" "b ! 5 = word_of_int (decay m)" "b ! 6 = word_of_int (ReverbModule.tone m)"
    unfolding b by simp_all
  show ?thesis
    using len bytes
    by (simp add: ReverbModule_from_bytes_def pad_to_def ReverbModule_SIZE_def Let_def
        s n uint_byte)
qed


section \<open>The preset buffer\<close>

lemma length_pyslice_assign_eq:
  "b = a + length d \<Longrightarrow> b \<le> length buf \<Longrightarrow> length (pyslice_assign buf a b d) = length buf"
  using length_pyslice_assign [of d "length d" a buf] by simp

lemma pyslice_assign_same_eq:
  "b = a + length d \<Longrightarrow> a \<le> length buf \<Longrightarrow> pyslice (pyslice_assign buf a b d) a b = d"
  using pyslice_assign_same [of d "length d" a buf] by simp

lemma pyslice_assign_after_eq:
  "b = a + length d \<Longrightarrow> b \<le> c \<Longrightarrow> b \<le> length buf \<Longrightarrow>
   pyslice (pyslice_assign buf a b d) c e = pyslice buf c e"
  using pyslice_assign_after [of d "length d" a c buf e] by simp

lemma pyslice_assign_prefix_eq:
  "b = a + length d \<Longrightarrow> b \<le> e \<Longrightarrow> b \<le> length buf \<Longrightarrow>
   pyslice (pyslice_assign buf a b d) a e = d @ pyslice buf b e"
  using pyslice_assign_prefix [of d "length d" a e buf] by simp

lemma write_effect_order_slice:
  "i + length vals \<le> length buf \<Longrightarrow>
   write_effect_order buf i vals =
     pyslice_assign buf i (i + length vals) (map (\<lambda>v. word_of_int (v AND 0xFF)) vals)"
proof (induction vals arbitrary: buf i)
  case Nil
  then show ?case by (simp add: pyslice_assign_def)
next
  case (Cons v vals)
  let ?w = "word_of_int (v AND 0xFF) :: byte"
  let ?ws = "map (\<lambda>v. word_of_int (v AND 0xFF) :: byte) vals"
  have i: "i < length buf" using Cons.prems by simp
  have "write_effect_order (buf[i := ?w]) (i + 1) vals
          = pyslice_assign (buf[i := ?w]) (i + 1) (i + 1 + length vals) ?ws"
    using Cons.prems by (intro Cons.IH) simp
  also have "\<dots> = take (Suc i) (buf[i := ?w]) @ ?ws @ drop (Suc (i + length vals)) (buf[i := ?w])"
    by (simp add: pyslice_assign_def)
  also have "take (Suc i) (buf[i := ?w]) = take i buf @ [?w]"
    using i by (simp add: take_Suc_conv_app_nth)
  also have "drop (Suc (i + length vals)) (buf[i := ?w]) = drop (Suc (i + length vals)) buf"
    by simp
  finally show ?case
    by (simp add: pyslice_assign_def OFF_EFFECT_ORDER_def)
qed

lemma data_size_bytes:
  "(word_of_nat (drop_bit 8 (500 :: nat) AND 0xFF) :: byte) = 0x01"
  "(word_of_nat ((500 :: nat) AND 0xFF) :: byte) = 0xF4"
proof -
  have "mask 8 = (255 :: nat)" by (simp add: mask_eq_exp_minus_1)
  then have m: "n AND 255 = n mod 256" for n :: nat
    using take_bit_eq_mask [of 8 n] by (simp add: take_bit_eq_mod)
  show "(word_of_nat (drop_bit 8 (500 :: nat) AND 0xFF) :: byte) = 0x01"
    by (simp add: m drop_bit_eq_div)
  show "(word_of_nat ((500 :: nat) AND 0xFF) :: byte) = 0xF4"
    by (simp add: m)
qed

lemma preset_buffer_windows:
  assumes eo: "length eo \<le> 10" and nm: "length nm \<le> 14"
    and fxb: "length fxb = 13"
    and odb: "length odb = 11"
    and ampb: "length ampb = 17"
    and cabb: "length cabb = 13"
    and nsb: "length nsb = 11"
    and eqb: "length eqb = 23"
    and modb: "length modb = 15"
    and delb: "length delb = 17"
    and revb: "length revb = 13"
  shows "length (preset_buffer eo nm fxb odb ampb cabb nsb eqb modb delb revb) = 512"
    and "pyslice (preset_buffer eo nm fxb odb ampb cabb nsb eqb modb delb revb) 12 26 = nm @ replicate (14 - length nm) 0"
    and "length eo = 10 \<Longrightarrow> pyslice (preset_buffer eo nm fxb odb ampb cabb nsb eqb modb delb revb) 0 10 = eo"
    and "pyslice (preset_buffer eo nm fxb odb ampb cabb nsb eqb modb delb revb) 26 39 = fxb"
    and "pyslice (preset_buffer eo nm fxb odb ampb cabb nsb eqb modb delb revb) 39 50 = odb"
    and "pyslice (preset_buffer eo nm fxb odb ampb cabb nsb eqb modb delb revb) 50 67 = ampb"
    and "pyslice (preset_buffer eo nm fxb odb ampb cabb nsb eqb modb delb revb) 67 80 = cabb"
    and "pyslice (preset_buffer eo nm fxb odb ampb cabb nsb eqb modb delb revb) 80 91 = nsb"
    and "pyslice (preset_buffer eo nm fxb odb ampb cabb nsb eqb modb delb revb) 91 114 = eqb"
    and "pyslice (preset_buffer eo nm fxb odb ampb cabb nsb eqb modb delb revb) 114 129 = modb"
    and "pyslice (preset_buffer eo nm fxb odb ampb cabb nsb eqb modb delb revb) 129 146 = delb"
    and "pyslice (preset_buffer eo nm fxb odb ampb cabb nsb eqb modb delb revb) 146 159 = revb"
proof -
  let ?z = "replicate 512 (0 :: byte)"
  let ?b1 = "pyslice_assign ?z 0 (0 + length eo) eo"
  let ?b2 = "pyslice_assign ?b1 10 (10 + 1) [0x01]"
  let ?b3 = "pyslice_assign ?b2 11 (11 + 1) [0xF4]"
  let ?b4 = "pyslice_assign ?b3 12 (12 + length nm) nm"
  let ?b5 = "pyslice_assign ?b4 26 (26 + 13) fxb"
  let ?b6 = "pyslice_assign ?b5 39 (39 + 11) odb"
  let ?b7 = "pyslice_assign ?b6 50 (50 + 17) ampb"
  let ?b8 = "pyslice_assign ?b7 67 (67 + 13) cabb"
  let ?b9 = "pyslice_assign ?b8 80 (80 + 11) nsb"
  let ?b10 = "pyslice_assign ?b9 91 (91 + 23) eqb"
  let ?b11 = "pyslice_assign ?b10 114 (114 + 15) modb"
  let ?b12 = "pyslice_assign ?b11 129 (129 + 17) delb"
  let ?b13 = "pyslice_assign ?b12 146 (146 + 13) revb"
  have l1: "length ?b1 = 512"
    using eo length_pyslice_assign_eq [of "0 + length eo" 0 eo ?z] by simp
  have l2: "length ?b2 = 512"
    using l1 length_pyslice_assign_eq [of "10 + 1" 10 "[0x01]" ?b1] by simp
  have l3: "length ?b3 = 512"
    using l2 length_pyslice_assign_eq [of "11 + 1" 11 "[0xF4]" ?b2] by simp
  have l4: "length ?b4 = 512"
    using l3 nm length_pyslice_assign_eq [of "12 + length nm" 12 nm ?b3] by simp
  have l5: "length ?b5 = 512"
    using l4 fxb length_pyslice_assign_eq [of "26 + 13" 26 fxb ?b4] by simp
  have l6: "length ?b6 = 512"
    using l5 odb length_pyslice_assign_eq [of "39 + 11" 39 odb ?b5] by simp
  have l7: "length ?b7 = 512"
    using l6 ampb length_pyslice_assign_eq [of "50 + 17" 50 ampb ?b6] by simp
  have l8: "length ?b8 = 512"
    using l7 cabb length_pyslice_assign_eq [of "67 + 13" 67 cabb ?b7] by simp
  have l9: "length ?b9 = 512"
    using l8 nsb length_pyslice_assign_eq [of "80 + 11" 80 nsb ?b8] by simp
  have l10: "length ?b10 = 512"
    using l9 eqb length_pyslice_assign_eq [of "91 + 23" 91 eqb ?b9] by simp
  have l11: "length ?b11 = 512"
    using l10 modb length_pyslice_assign_eq [of "114 + 15" 114 modb ?b10] by simp
  have l12: "length ?b12 = 512"
    using l11 delb length_pyslice_assign_eq [of "129 + 17" 129 delb ?b11] by simp
  have l13: "length ?b13 = 512"
    using l12 revb length_pyslice_assign_eq [of "146 + 13" 146 revb ?b12] by simp
  have buf: "preset_buffer eo nm fxb odb ampb cabb nsb eqb modb delb revb = ?b13"
    by (simp only: preset_buffer_def)
  show "length (preset_buffer eo nm fxb odb ampb cabb nsb eqb modb delb revb) = 512"
    by (simp only: buf l13)

  have n13: "pyslice ?b13 12 26 = pyslice ?b12 12 26"
    using l12 by (intro pyslice_assign_before) simp_all
  have n12: "pyslice ?b12 12 26 = pyslice ?b11 12 26"
    using l11 by (intro pyslice_assign_before) simp_all
  have n11: "pyslice ?b11 12 26 = pyslice ?b10 12 26"
    using l10 by (intro pyslice_assign_before) simp_all
  have n10: "pyslice ?b10 12 26 = pyslice ?b9 12 26"
    using l9 by (intro pyslice_assign_before) simp_all
  have n9: "pyslice ?b9 12 26 = pyslice ?b8 12 26"
    using l8 by (intro pyslice_assign_before) simp_all
  have n8: "pyslice ?b8 12 26 = pyslice ?b7 12 26"
    using l7 by (intro pyslice_assign_before) simp_all
  have n7: "pyslice ?b7 12 26 = pyslice ?b6 12 26"
    using l6 by (intro pyslice_assign_before) simp_all
  have n6: "pyslice ?b6 12 26 = pyslice ?b5 12 26"
    using l5 by (intro pyslice_assign_before) simp_all
  have n5: "pyslice ?b5 12 26 = pyslice ?b4 12 26"
    using l4 by (intro pyslice_assign_before) simp_all
  have n4: "pyslice ?b4 12 26 = nm @ pyslice ?b3 (12 + length nm) 26"
    using l3 nm by (intro pyslice_assign_prefix_eq) simp_all
  have n3: "pyslice ?b3 (12 + length nm) 26 = pyslice ?b2 (12 + length nm) 26"
    using l2 by (intro pyslice_assign_after_eq) simp_all
  have n2: "pyslice ?b2 (12 + length nm) 26 = pyslice ?b1 (12 + length nm) 26"
    using l1 by (intro pyslice_assign_after_eq) simp_all
  have n1: "pyslice ?b1 (12 + length nm) 26 = pyslice ?z (12 + length nm) 26"
    using eo by (intro pyslice_assign_after_eq) simp_all
  have n0: "pyslice ?z (12 + length nm) 26 = replicate (14 - length nm) 0"
    by (simp add: pyslice_replicate)
  show "pyslice (preset_buffer eo nm fxb odb ampb cabb nsb eqb modb delb revb) 12 26 = nm @ replicate (14 - length nm) 0"
    by (simp only: buf n13 n12 n11 n10 n9 n8 n7 n6 n5 n4 n3 n2 n1 n0)
  have e13: "pyslice ?b13 0 10 = pyslice ?b12 0 10"
    using l12 by (intro pyslice_assign_before) simp_all
  have e12: "pyslice ?b12 0 10 = pyslice ?b11 0 10"
    using l11 by (intro pyslice_assign_before) simp_all
  have e11: "pyslice ?b11 0 10 = pyslice ?b10 0 10"
    using l10 by (intro pyslice_assign_before) simp_all
  have e10: "pyslice ?b10 0 10 = pyslice ?b9 0 10"
    using l9 by (intro pyslice_assign_before) simp_all
  have e9: "pyslice ?b9 0 10 = pyslice ?b8 0 10"
    using l8 by (intro pyslice_assign_before) simp_all
  have e8: "pyslice ?b8 0 10 = pyslice ?b7 0 10"
    using l7 by (intro pyslice_assign_before) simp_all
  have e7: "pyslice ?b7 0 10 = pyslice ?b6 0 10"
    using l6 by (intro pyslice_assign_before) simp_all
  have e6: "pyslice ?b6 0 10 = pyslice ?b5 0 10"
    using l5 by (intro pyslice_assign_before) simp_all
  have e5: "pyslice ?b5 0 10 = pyslice ?b4 0 10"
    using l4 by (intro pyslice_assign_before) simp_all
  have e4: "pyslice ?b4 0 10 = pyslice ?b3 0 10"
    using l3 by (intro pyslice_assign_before) simp_all
  have e3: "pyslice ?b3 0 10 = pyslice ?b2 0 10"
    using l2 by (intro pyslice_assign_before) simp_all
  have e2: "pyslice ?b2 0 10 = pyslice ?b1 0 10"
    using l1 by (intro pyslice_assign_before) simp_all
  show "pyslice (preset_buffer eo nm fxb odb ampb cabb nsb eqb modb delb revb) 0 10 = eo" if "length eo = 10"
  proof -
    have "pyslice ?b1 0 10 = eo"
      using that pyslice_assign_same_eq [of "0 + length eo" 0 eo ?z] by simp
    then show ?thesis by (simp only: buf e13 e12 e11 e10 e9 e8 e7 e6 e5 e4 e3 e2)
  qed
  have f5w13: "pyslice ?b13 26 39 = pyslice ?b12 26 39"
    using l12 by (intro pyslice_assign_before) simp_all
  have f5w12: "pyslice ?b12 26 39 = pyslice ?b11 26 39"
    using l11 by (intro pyslice_assign_before) simp_all
  have f5w11: "pyslice ?b11 26 39 = pyslice ?b10 26 39"
    using l10 by (intro pyslice_assign_before) simp_all
  have f5w10: "pyslice ?b10 26 39 = pyslice ?b9 26 39"
    using l9 by (intro pyslice_assign_before) simp_all
  have f5w9: "pyslice ?b9 26 39 = pyslice ?b8 26 39"
    using l8 by (intro pyslice_assign_before) simp_all
  have f5w8: "pyslice ?b8 26 39 = pyslice ?b7 26 39"
    using l7 by (intro pyslice_assign_before) simp_all
  have f5w7: "pyslice ?b7 26 39 = pyslice ?b6 26 39"
    using l6 by (intro pyslice_assign_before) simp_all
  have f5w6: "pyslice ?b6 26 39 = pyslice ?b5 26 39"
    using l5 by (intro pyslice_assign_before) simp_all
  have "pyslice ?b5 26 39 = fxb"
    using l4 fxb pyslice_assign_same_eq [of "26 + 13" 26 fxb ?b4] by simp
  then show "pyslice (preset_buffer eo nm fxb odb ampb cabb nsb eqb modb delb revb) 26 39 = fxb"
    by (simp only: buf f5w13 f5w12 f5w11 f5w10 f5w9 f5w8 f5w7 f5w6)
  have o6w13: "pyslice ?b13 39 50 = pyslice ?b12 39 50"
    using l12 by (intro pyslice_assign_before) simp_all
  have o6w12: "pyslice ?b12 39 50 = pyslice ?b11 39 50"
    using l11 by (intro pyslice_assign_before) simp_all
  have o6w11: "pyslice ?b11 39 50 = pyslice ?b10 39 50"
    using l10 by (intro pyslice_assign_before) simp_all
  have o6w10: "pyslice ?b10 39 50 = pyslice ?b9 39 50"
    using l9 by (intro pyslice_assign_before) simp_all
  have o6w9: "pyslice ?b9 39 50 = pyslice ?b8 39 50"
    using l8 by (intro pyslice_assign_before) simp_all
  have o6w8: "pyslice ?b8 39 50 = pyslice ?b7 39 50"
    using l7 by (intro pyslice_assign_before) simp_all
  have o6w7: "pyslice ?b7 39 50 = pyslice ?b6 39 50"
    using l6 by (intro pyslice_assign_before) simp_all
  have "pyslice ?b6 39 50 = odb"
    using l5 odb pyslice_assign_same_eq [of "39 + 11" 39 odb ?b5] by simp
  then show "pyslice (preset_buffer eo nm fxb odb ampb cabb nsb eqb modb delb revb) 39 50 = odb"
    by (simp only: buf o6w13 o6w12 o6w11 o6w10 o6w9 o6w8 o6w7)
  have a7w13: "pyslice ?b13 50 67 = pyslice ?b12 50 67"
    using l12 by (intro pyslice_assign_before) simp_all
  have a7w12: "pyslice ?b12 50 67 = pyslice ?b11 50 67"
    using l11 by (intro pyslice_assign_before) simp_all
  have a7w11: "pyslice ?b11 50 67 = pyslice ?b10 50 67"
    using l10 by (intro pyslice_assign_before) simp_all
  have a7w10: "pyslice ?b10 50 67 = pyslice ?b9 50 67"
    using l9 by (intro pyslice_assign_before) simp_all
  have a7w9: "pyslice ?b9 50 67 = pyslice ?b8 50 67"
    using l8 by (intro pyslice_assign_before) simp_all
  have a7w8: "pyslice ?b8 50 67 = pyslice ?b7 50 67"
    using l7 by (intro pyslice_assign_before) simp_all
  have "pyslice ?b7 50 67 = ampb"
    using l6 ampb pyslice_assign_same_eq [of "50 + 17" 50 ampb ?b6] by simp
  then show "pyslice (preset_buffer eo nm fxb odb ampb cabb nsb eqb modb delb revb) 50 67 = ampb"
    by (simp only: buf a7w13 a7w12 a7w11 a7w10 a7w9 a7w8)
  have c8w13: "pyslice ?b13 67 80 = pyslice ?b12 67 80"
    using l12 by (intro pyslice_assign_before) simp_all
  have c8w12: "pyslice ?b12 67 80 = pyslice ?b11 67 80"
    using l11 by (intro pyslice_assign_before) simp_all
  have c8w11: "pyslice ?b11 67 80 = pyslice ?b10 67 80"
    using l10 by (intro pyslice_assign_before) simp_all
  have c8w10: "pyslice ?b10 67 80 = pyslice ?b9 67 80"
    using l9 by (intro pyslice_assign_before) simp_all
  have c8w9: "pyslice ?b9 67 80 = pyslice ?b8 67 80"
    using l8 by (intro pyslice_assign_before) simp_all
  have "pyslice ?b8 67 80 = cabb"
    using l7 cabb pyslice_assign_same_eq [of "67 + 13" 67 cabb ?b7] by simp
  then show "pyslice (preset_buffer eo nm fxb odb ampb cabb nsb eqb modb delb revb) 67 80 = cabb"
    by (simp only: buf c8w13 c8w12 c8w11 c8w10 c8w9)
  have n9w13: "pyslice ?b13 80 91 = pyslice ?b12 80 91"
    using l12 by (intro pyslice_assign_before) simp_all
  have n9w12: "pyslice ?b12 80 91 = pyslice ?b11 80 91"
    using l11 by (intro pyslice_assign_before) simp_all
  have n9w11: "pyslice ?b11 80 91 = pyslice ?b10 80 91"
    using l10 by (intro pyslice_assign_before) simp_all
  have n9w10: "pyslice ?b10 80 91 = pyslice ?b9 80 91"
    using l9 by (intro pyslice_assign_before) simp_all
  have "pyslice ?b9 80 91 = nsb"
    using l8 nsb pyslice_assign_same_eq [of "80 + 11" 80 nsb ?b8] by simp
  then show "pyslice (preset_buffer eo nm fxb odb ampb cabb nsb eqb modb delb revb) 80 91 = nsb"
    by (simp only: buf n9w13 n9w12 n9w11 n9w10)
  have e10w13: "pyslice ?b13 91 114 = pyslice ?b12 91 114"
    using l12 by (intro pyslice_assign_before) simp_all
  have e10w12: "pyslice ?b12 91 114 = pyslice ?b11 91 114"
    using l11 by (intro pyslice_assign_before) simp_all
  have e10w11: "pyslice ?b11 91 114 = pyslice ?b10 91 114"
    using l10 by (intro pyslice_assign_before) simp_all
  have "pyslice ?b10 91 114 = eqb"
    using l9 eqb pyslice_assign_same_eq [of "91 + 23" 91 eqb ?b9] by simp
  then show "pyslice (preset_buffer eo nm fxb odb ampb cabb nsb eqb modb delb revb) 91 114 = eqb"
    by (simp only: buf e10w13 e10w12 e10w11)
  have m11w13: "pyslice ?b13 114 129 = pyslice ?b12 114 129"
    using l12 by (intro pyslice_assign_before) simp_all
  have m11w12: "pyslice ?b12 114 129 = pyslice ?b11 114 129"
    using l11 by (intro pyslice_assign_before) simp_all
  have "pyslice ?b11 114 129 = modb"
    using l10 modb pyslice_assign_same_eq [of "114 + 15" 114 modb ?b10] by simp
  then show "pyslice (preset_buffer eo nm fxb odb ampb cabb nsb eqb modb delb revb) 114 129 = modb"
    by (simp only: buf m11w13 m11w12)
  have d12w13: "pyslice ?b13 129 146 = pyslice ?b12 129 146"
    using l12 by (intro pyslice_assign_before) simp_all
  have "pyslice ?b12 129 146 = delb"
    using l11 delb pyslice_assign_same_eq [of "129 + 17" 129 delb ?b11] by simp
  then show "pyslice (preset_buffer eo nm fxb odb ampb cabb nsb eqb modb delb revb) 129 146 = delb"
    by (simp only: buf d12w13)
  have "pyslice ?b13 146 159 = revb"
    using l12 revb pyslice_assign_same_eq [of "146 + 13" 146 revb ?b12] by simp
  then show "pyslice (preset_buffer eo nm fxb odb ampb cabb nsb eqb modb delb revb) 146 159 = revb"
    by (simp only: buf )
qed


section \<open>Presets\<close>

lemmas preset_offsets =
  PRESET_SIZE_def OFF_EFFECT_ORDER_def OFF_SIZE_def OFF_NAME_def OFF_FX_def OFF_OD_def
  OFF_AMP_def OFF_CAB_def OFF_NS_def OFF_EQ_def OFF_MOD_def OFF_DELAY_def OFF_REVERB_def

lemmas module_sizes =
  FXModule_SIZE_def DistortionModule_SIZE_def AmpModule_SIZE_def CabModule_SIZE_def
  NoiseGateModule_SIZE_def EQModule_SIZE_def ModulationModule_SIZE_def DelayModule_SIZE_def
  ReverbModule_SIZE_def

lemma Preset_to_bytes_buffer:
  assumes "FXModule_to_bytes (fx p) = Inr fxb"
      and "DistortionModule_to_bytes (od p) = Inr odb"
      and "AmpModule_to_bytes (amp p) = Inr ampb"
      and "CabModule_to_bytes (cab p) = Inr cabb"
      and "NoiseGateModule_to_bytes (ns p) = Inr nsb"
      and "EQModule_to_bytes (eq p) = Inr eqb"
      and "ModulationModule_to_bytes (mod_module p) = Inr modb"
      and "DelayModule_to_bytes (delay p) = Inr delb"
      and "ReverbModule_to_bytes (reverb p) = Inr revb"
  shows "Preset_to_bytes p =
           Inr (preset_buffer (map (\<lambda>v. word_of_int (v AND 0xFF)) (take 10 (effect_order p)))
                  (take 14 (encode_ascii (name p))) fxb odb ampb cabb nsb eqb modb delb revb)"
proof -
  let ?z = "replicate 512 (0 :: byte)"
  let ?eo = "map (\<lambda>v. word_of_int (v AND 0xFF)) (take 10 (effect_order p)) :: bytes"
  let ?b1 = "pyslice_assign ?z 0 (0 + length ?eo) ?eo"
  let ?b2 = "pyslice_assign ?b1 10 (10 + 1) [0x01]"
  have w: "write_effect_order ?z 0 (pyslice (effect_order p) 0 10) = ?b1"
    using write_effect_order_slice [of 0 "take 10 (effect_order p)" ?z]
    by (simp add: pyslice_def)
  have l1: "length ?b1 = 512"
    using length_pyslice_assign_eq [of "0 + length ?eo" 0 ?eo ?z] by simp
  have u2: "?b1[10 := 0x01] = ?b2"
    using l1 by (intro list_update_as_slice) simp
  have l2: "length ?b2 = 512"
    using l1 length_pyslice_assign_eq [of "10 + 1" 10 "[0x01]" ?b1] by simp
  have u3: "?b2[11 := 0xF4] = pyslice_assign ?b2 11 (11 + 1) [0xF4]"
    using l2 by (intro list_update_as_slice) simp
  have nm: "pyslice (encode_ascii (name p)) 0 14 = take 14 (encode_ascii (name p))"
    by (simp add: pyslice_def)
  have "Preset_to_bytes p =
          Inr (pyslice_assign (pyslice_assign (pyslice_assign (pyslice_assign (pyslice_assign
               (pyslice_assign (pyslice_assign (pyslice_assign (pyslice_assign
                 (pyslice_assign (pyslice_assign ?b2 11 (11 + 1) [0xF4])
                    12 (12 + length (take 14 (encode_ascii (name p)))) (take 14 (encode_ascii (name p))))
                 26 (26 + 13) fxb) 39 (39 + 11) odb) 50 (50 + 17) ampb) 67 (67 + 13) cabb)
                 80 (80 + 11) nsb) 91 (91 + 23) eqb) 114 (114 + 15) modb) 129 (129 + 17) delb)
                 146 (146 + 13) revb)"
    unfolding Preset_to_bytes_def Let_def preset_offsets module_sizes nm assms write_module_def
    by (simp add: w [simplified] data_size_bytes u2 [simplified] u3 [simplified])
  then show ?thesis by (simp only: preset_buffer_def)
qed

lemma Preset_to_bytes_encodable:
  assumes "encodable_Preset p"
  obtains fxb odb ampb cabb nsb eqb modb delb revb where
    "FXModule_to_bytes (fx p) = Inr fxb" and "length fxb = 13"
    and "DistortionModule_to_bytes (od p) = Inr odb" and "length odb = 11"
    and "AmpModule_to_bytes (amp p) = Inr ampb" and "length ampb = 17"
    and "CabModule_to_bytes (cab p) = Inr cabb" and "length cabb = 13"
    and "NoiseGateModule_to_bytes (ns p) = Inr nsb" and "length nsb = 11"
    and "EQModule_to_bytes (eq p) = Inr eqb" and "length eqb = 23"
    and "ModulationModule_to_bytes (mod_module p) = Inr modb" and "length modb = 15"
    and "DelayModule_to_bytes (delay p) = Inr delb" and "length delb = 17"
    and "ReverbModule_to_bytes (reverb p) = Inr revb" and "length revb = 13"
    and "Preset_to_bytes p =
           Inr (preset_buffer (map (\<lambda>v. word_of_int (v AND 0xFF)) (take 10 (effect_order p)))
                  (take 14 (encode_ascii (name p))) fxb odb ampb cabb nsb eqb modb delb revb)"
proof -
  obtain fxb where fxb: "FXModule_to_bytes (fx p) = Inr fxb" "length fxb = 13"
    using assms FXModule_to_bytes_length [of "fx p"] by (auto simp add: encodable_Preset_def)
  obtain odb where odb: "DistortionModule_to_bytes (od p) = Inr odb" "length odb = 11"
    using assms DistortionModule_to_bytes_length [of "od p"] by (auto simp add: encodable_Preset_def)
  obtain ampb where ampb: "AmpModule_to_bytes (amp p) = Inr ampb" "length ampb = 17"
    using assms AmpModule_to_bytes_length [of "amp p"] by (auto simp add: encodable_Preset_def)
  obtain cabb where cabb: "CabModule_to_bytes (cab p) = Inr cabb" "length cabb = 13"
    using assms CabModule_to_bytes_length [of "cab p"] by (auto simp add: encodable_Preset_def)
  obtain nsb where nsb: "NoiseGateModule_to_bytes (ns p) = Inr nsb" "length nsb = 11"
    using assms NoiseGateModule_to_bytes_length [of "ns p"] by (auto simp add: encodable_Preset_def)
  obtain eqb where eqb: "EQModule_to_bytes (eq p) = Inr eqb" "length eqb = 23"
    using assms EQModule_to_bytes_length [of "eq p"] by (auto simp add: encodable_Preset_def)
  obtain modb where modb: "ModulationModule_to_bytes (mod_module p) = Inr modb" "length modb = 15"
    using assms ModulationModule_to_bytes_length [of "mod_module p"] by (auto simp add: encodable_Preset_def)
  obtain delb where delb: "DelayModule_to_bytes (delay p) = Inr delb" "length delb = 17"
    using assms DelayModule_to_bytes_length [of "delay p"] by (auto simp add: encodable_Preset_def)
  obtain revb where revb: "ReverbModule_to_bytes (reverb p) = Inr revb" "length revb = 13"
    using assms ReverbModule_to_bytes_length [of "reverb p"] by (auto simp add: encodable_Preset_def)
  show ?thesis
    using that [OF fxb odb ampb cabb nsb eqb modb delb revb]
      Preset_to_bytes_buffer [OF fxb(1) odb(1) ampb(1) cabb(1) nsb(1) eqb(1) modb(1) delb(1) revb(1)]
    by simp
qed

lemma valid_Preset_encodable: "valid_Preset p \<Longrightarrow> encodable_Preset p"
  by (simp add: valid_Preset_def encodable_Preset_def valid_FXModule_def
      valid_DistortionModule_def valid_AmpModule_def valid_CabModule_def
      valid_NoiseGateModule_def valid_EQModule_def valid_ModulationModule_def
      valid_DelayModule_def valid_ReverbModule_def)

lemma effect_order_roundtrip:
  "list_all is_byte xs \<Longrightarrow>
   map uint (map (\<lambda>v. word_of_int (v AND 0xFF)) xs :: bytes) = xs"
  by (induction xs) (simp_all add: effect_order_byte del: and_255)

lemma ascii_byte:
  assumes "0 < c" "c < 128"
  shows "(word_of_nat c :: byte) \<noteq> 0" and "unat (word_of_nat c :: byte) = c"
proof -
  show u: "unat (word_of_nat c :: byte) = c"
    using assms by (intro unat_byte_of_nat) simp
  show "(word_of_nat c :: byte) \<noteq> 0"
  proof
    assume "(word_of_nat c :: byte) = 0"
    then have "unat (word_of_nat c :: byte) = 0" by simp
    then show False using u assms by simp
  qed
qed

lemma name_roundtrip:
  "list_all (\<lambda>c. 0 < c \<and> c < 128) s \<Longrightarrow>
   decode_ascii (before_null (encode_ascii s @ replicate k 0)) = s"
proof (induction s)
  case Nil
  then show ?case by (cases k) (simp_all add: decode_ascii_def before_null_def encode_ascii_def)
next
  case (Cons c s)
  then have c: "0 < c" "c < 128" by simp_all
  have "decode_ascii (before_null (encode_ascii s @ replicate k 0)) = s"
    using Cons by simp
  then show ?case
    using c ascii_byte [OF c]
    by (simp add: decode_ascii_def before_null_def encode_ascii_def)
qed



text \<open>
  C2. For every valid preset \<open>p\<close>, \<^verbatim>\<open>p.to_bytes()\<close> returns bytes from which
  \<^verbatim>\<open>Preset.from_bytes\<close> rebuilds \<open>p\<close>: the name, the effect order and every field of every
  module, the delay time and the twelve EQ bands among them (the reserved bytes come back
  too, having their declared lengths).
\<close>

theorem Preset_from_bytes_to_bytes:
  assumes "valid_Preset p"
  shows "\<exists>b. Preset_to_bytes p = Inr b \<and> Preset_from_bytes b = p"
proof -
  let ?eo = "map (\<lambda>v. word_of_int (v AND 0xFF)) (take 10 (effect_order p)) :: bytes"
  let ?nm = "take 14 (encode_ascii (name p))"
  have enc: "encodable_Preset p" using assms by (rule valid_Preset_encodable)
  obtain fxb odb ampb cabb nsb eqb modb delb revb where
    fxbt: "FXModule_to_bytes (fx p) = Inr fxb" and fxb: "length fxb = 13"
    and odbt: "DistortionModule_to_bytes (od p) = Inr odb" and odb: "length odb = 11"
    and ampbt: "AmpModule_to_bytes (amp p) = Inr ampb" and ampb: "length ampb = 17"
    and cabbt: "CabModule_to_bytes (cab p) = Inr cabb" and cabb: "length cabb = 13"
    and nsbt: "NoiseGateModule_to_bytes (ns p) = Inr nsb" and nsb: "length nsb = 11"
    and eqbt: "EQModule_to_bytes (eq p) = Inr eqb" and eqb: "length eqb = 23"
    and modbt: "ModulationModule_to_bytes (mod_module p) = Inr modb" and modb: "length modb = 15"
    and delbt: "DelayModule_to_bytes (delay p) = Inr delb" and delb: "length delb = 17"
    and revbt: "ReverbModule_to_bytes (reverb p) = Inr revb" and revb: "length revb = 13"
    and buf: "Preset_to_bytes p = Inr (preset_buffer ?eo ?nm fxb odb ampb cabb nsb eqb modb delb revb)"
    using enc by (rule Preset_to_bytes_encodable)
  let ?b = "preset_buffer ?eo ?nm fxb odb ampb cabb nsb eqb modb delb revb"
  have eo10: "length ?eo = 10" and eo: "take 10 (effect_order p) = effect_order p"
    using assms by (simp_all add: valid_Preset_def)
  have nm14: "length ?nm \<le> 14" by simp
  have nm: "?nm = encode_ascii (name p)"
    using assms by (simp add: valid_Preset_def encode_ascii_def)
  have eol: "length ?eo \<le> 10" using eo10 by simp
  note win = preset_buffer_windows [OF eol nm14 fxb odb ampb cabb nsb eqb modb delb revb]
  have len: "length ?b = 512" by (rule win(1))
  have wname: "pyslice ?b 12 26 = encode_ascii (name p) @ replicate (14 - length ?nm) 0"
    using win(2) nm by simp
  have weo: "pyslice ?b 0 10 = ?eo" using eo10 by (rule win(3))
  have "list_all is_byte (take 10 (effect_order p))"
    using assms by (simp only: eo) (simp add: valid_Preset_def)
  then have meo: "map uint ?eo = take 10 (effect_order p)"
    by (rule effect_order_roundtrip)
  have "map uint (pyslice ?b 0 10) = map uint ?eo" by (simp only: weo)
  also have "\<dots> = take 10 (effect_order p)" by (rule meo)
  also have "\<dots> = effect_order p" by (rule eo)
  finally have r_eo: "map uint (pyslice ?b 0 10) = effect_order p" .
  have r_name: "decode_ascii (before_null (pyslice ?b 12 26)) = name p"
    using assms by (simp only: wname) (simp add: valid_Preset_def name_roundtrip)
  have r_fx: "FXModule_from_bytes (pyslice ?b 26 39) = fx p"
    using assms fxbt by (simp only: win(4)) (simp add: valid_Preset_def FXModule_roundtrip)
  have r_od: "DistortionModule_from_bytes (pyslice ?b 39 50) = od p"
    using assms odbt by (simp only: win(5)) (simp add: valid_Preset_def DistortionModule_roundtrip)
  have r_amp: "AmpModule_from_bytes (pyslice ?b 50 67) = amp p"
    using assms ampbt by (simp only: win(6)) (simp add: valid_Preset_def AmpModule_roundtrip)
  have r_cab: "CabModule_from_bytes (pyslice ?b 67 80) = cab p"
    using assms cabbt by (simp only: win(7)) (simp add: valid_Preset_def CabModule_roundtrip)
  have r_ns: "NoiseGateModule_from_bytes (pyslice ?b 80 91) = ns p"
    using assms nsbt by (simp only: win(8)) (simp add: valid_Preset_def NoiseGateModule_roundtrip)
  have r_eq: "EQModule_from_bytes (pyslice ?b 91 114) = eq p"
    using assms eqbt by (simp only: win(9)) (simp add: valid_Preset_def EQModule_roundtrip)
  have r_mod_module: "ModulationModule_from_bytes (pyslice ?b 114 129) = mod_module p"
    using assms modbt by (simp only: win(10)) (simp add: valid_Preset_def ModulationModule_roundtrip)
  have r_delay: "DelayModule_from_bytes (pyslice ?b 129 146) = delay p"
    using assms delbt by (simp only: win(11)) (simp add: valid_Preset_def DelayModule_roundtrip)
  have r_reverb: "ReverbModule_from_bytes (pyslice ?b 146 159) = reverb p"
    using assms revbt by (simp only: win(12)) (simp add: valid_Preset_def ReverbModule_roundtrip)
  have "Preset_from_bytes ?b = p"
    using len
    by (simp add: Preset_from_bytes_def pad_to_def preset_offsets module_sizes Let_def
        r_eo r_name r_fx r_od r_amp r_cab r_ns r_eq r_mod_module r_delay r_reverb)
  then show ?thesis using buf by simp
qed


lemma valid_Preset_sample: "valid_Preset Preset_sample"
  by (simp add: valid_Preset_def Preset_sample_def Preset_default_def pystr_of_def is_byte_def
      list_all_iff
      valid_FXModule_def valid_DistortionModule_def valid_AmpModule_def valid_CabModule_def
      valid_NoiseGateModule_def valid_EQModule_def valid_ModulationModule_def
      valid_DelayModule_def valid_ReverbModule_def
      encodable_FXModule_def encodable_DistortionModule_def encodable_AmpModule_def
      encodable_CabModule_def encodable_NoiseGateModule_def encodable_EQModule_def
      encodable_ModulationModule_def encodable_DelayModule_def encodable_ReverbModule_def
      FXModule_default_def DistortionModule_default_def AmpModule_default_def
      CabModule_default_def NoiseGateModule_default_def EQModule_default_def
      ModulationModule_default_def DelayModule_default_def ReverbModule_default_def)

theorem Preset_from_bytes_to_bytes_witness:
  "valid_Preset Preset_sample
   \<and> (\<exists>b. Preset_to_bytes Preset_sample = Inr b \<and> Preset_from_bytes b = Preset_sample)"
  using Preset_from_bytes_to_bytes [of Preset_sample] valid_Preset_sample by simp







section \<open>The .mo container\<close>




end
